theory Spec2Isabelle
  imports Complex_Main "HOL-Library.Sublist" "HOL-Library.Log_Nat"
begin

section \<open>Chronos: a shallow embedding of \<^verbatim>\<open>src/chronos.py\<close>\<close>

text \<open>
  The class \<^verbatim>\<open>Chronos\<close> builds harmonic (sine/cosine) calendar features from a
  timestamp column, fits a linear model with pyro, and offers prediction intervals,
  seasonality curves and a future frame.  The embedding follows the source statement by
  statement.  What lies outside the repository is treated as follows.

  \<^item> float64 and float32 numbers in the data are modelled by the reals, with \<open>None\<close>
    for NaN, and their rounding is not modelled.  The float64 arithmetic whose result
    \<^verbatim>\<open>predict\<close> converts to an integer is modelled with its rounding.
  \<^item> A pandas DataFrame is a list of named columns in column order, with the default
    positional index.  Columns are \<^verbatim>\<open>datetime64[ns]\<close> (nanoseconds since the epoch,
    \<open>None\<close> for NaT), \<^verbatim>\<open>float64\<close>, or \<^verbatim>\<open>object\<close> (mixed cells).
  \<^item> The pyro optimiser and the posterior-predictive sampler are parameters of the
    model (\<open>svi\<close>, \<open>sampler\<close>): they may fail or return arbitrary numbers, and nothing
    is assumed about the numbers they return.
\<close>

subsection \<open>Errors and values\<close>

datatype error =
    KeyError | AttributeError | ValueError | TypeError | IndexError | RuntimeError
  | NotImplementedError | UnboundLocalError | ZeroDivisionError | LibraryError
  | OverflowError | OutOfBoundsDatetime

definition bindE :: "error + 'a \<Rightarrow> ('a \<Rightarrow> error + 'b) \<Rightarrow> error + 'b" where
  "bindE m k = (case m of Inl e \<Rightarrow> Inl e | Inr x \<Rightarrow> k x)"

type_synonym float = "real option"
type_synonym timestamp = "int option"

datatype cell = TsCell timestamp | FloatCell float

datatype column = DatetimeCol "timestamp list" | FloatCol "float list" | ObjectCol "cell list"

type_synonym frame = "(string \<times> column) list"

fun col_len :: "column \<Rightarrow> nat" where
  "col_len (DatetimeCol ts) = length ts"
| "col_len (FloatCol xs) = length xs"
| "col_len (ObjectCol cs) = length cs"

definition columns :: "frame \<Rightarrow> string list" where
  "columns f = map fst f"

definition nrows :: "frame \<Rightarrow> nat" where
  "nrows f = (case f of [] \<Rightarrow> 0 | p # _ \<Rightarrow> col_len (snd p))"

text \<open>A DataFrame has distinct column labels here, and all its columns have one length.\<close>

definition wf_frame :: "frame \<Rightarrow> bool" where
  "wf_frame f = (distinct (columns f) \<and> list_all (\<lambda>p. col_len (snd p) = nrows f) f)"

subsection \<open>The pandas operations the source calls\<close>

text \<open>\<^verbatim>\<open>df[name]\<close>: the column, or KeyError.\<close>

definition getitem :: "frame \<Rightarrow> string \<Rightarrow> error + column" where
  "getitem f name = (case map_of f name of None \<Rightarrow> Inl KeyError | Some c \<Rightarrow> Inr c)"

text \<open>\<^verbatim>\<open>df[name] = col\<close>: replaces the column in place, or appends it as the last column.\<close>

fun setitem :: "frame \<Rightarrow> string \<Rightarrow> column \<Rightarrow> frame" where
  "setitem [] name c = [(name, c)]"
| "setitem (p # ps) name c = (if fst p = name then (name, c) # ps else p # setitem ps name c)"

text \<open>\<^verbatim>\<open>df.insert(loc, name, value)\<close> with a scalar value: ValueError when the label exists
  (\<^verbatim>\<open>allow_duplicates\<close> is off), IndexError when \<open>loc\<close> is out of bounds.\<close>

definition insert_df :: "frame \<Rightarrow> nat \<Rightarrow> string \<Rightarrow> real \<Rightarrow> error + frame" where
  "insert_df f loc name v =
     (if name \<in> set (columns f) then Inl ValueError
      else if length f < loc then Inl IndexError
      else Inr (take loc f @ (name, FloatCol (replicate (nrows f) (Some v))) # drop loc f))"

text \<open>\<^verbatim>\<open>df.drop(labels, axis=1)\<close>: a new frame; KeyError when a label is absent.\<close>

definition drop_df :: "frame \<Rightarrow> string list \<Rightarrow> error + frame" where
  "drop_df f labels =
     (if list_all (\<lambda>l. l \<in> set (columns f)) labels
      then Inr (filter (\<lambda>p. fst p \<notin> set labels) f)
      else Inl KeyError)"

text \<open>\<^verbatim>\<open>df[[n1, n2, ...]]\<close>: the named columns in the order asked for.\<close>

fun select_df :: "frame \<Rightarrow> string list \<Rightarrow> error + frame" where
  "select_df f [] = Inr []"
| "select_df f (n # ns) =
     bindE (getitem f n) (\<lambda>c. bindE (select_df f ns) (\<lambda>r. Inr ((n, c) # r)))"

subsection \<open>Calendar fields of a timestamp\<close>

text \<open>
  A timestamp is a count of nanoseconds since 1970-01-01 00:00 (a Thursday).  The fields
  \<^verbatim>\<open>.dt.dayofweek\<close> (Monday = 0), \<^verbatim>\<open>.dt.day\<close> and \<^verbatim>\<open>.dt.dayofyear\<close> of the
  proleptic Gregorian calendar are computed from the day number.
\<close>

definition ns_per_day :: int where
  "ns_per_day = 86400000000000"

definition day_number :: "int \<Rightarrow> int" where
  "day_number t = t div ns_per_day"

definition dayofweek :: "int \<Rightarrow> int" where
  "dayofweek t = (day_number t + 3) mod 7"

text \<open>Year, day of the month and day of the year of a day number.\<close>

definition civil :: "int \<Rightarrow> int \<times> int \<times> int" where
  "civil z =
     (let z' = z + 719468;
          era = z' div 146097;
          doe = z' - era * 146097;
          yoe = (doe - doe div 1460 + doe div 36524 - doe div 146096) div 365;
          doy = doe - (365 * yoe + yoe div 4 - yoe div 100);
          mp = (5 * doy + 2) div 153;
          d = doy - (153 * mp + 2) div 5 + 1;
          y = yoe + era * 400 + (if mp < 10 then 0 else 1);
          leap = (y mod 4 = 0 \<and> (y mod 100 \<noteq> 0 \<or> y mod 400 = 0));
          yd = (if mp < 10 then doy + 59 + (if leap then 1 else 0) + 1 else doy - 306 + 1)
      in (y, d, yd))"

definition day :: "int \<Rightarrow> int" where
  "day t = fst (snd (civil (day_number t)))"

definition dayofyear :: "int \<Rightarrow> int" where
  "dayofyear t = snd (snd (civil (day_number t)))"

text \<open>A \<^verbatim>\<open>.dt\<close> field of a column: AttributeError unless the column is datetime-like;
  the field of NaT is NaN.\<close>

definition dt_field :: "(int \<Rightarrow> int) \<Rightarrow> column \<Rightarrow> error + column" where
  "dt_field fld c =
     (case c of
        DatetimeCol ts \<Rightarrow> Inr (FloatCol (map (map_option (\<lambda>t. real_of_int (fld t))) ts))
      | FloatCol xs \<Rightarrow> Inl AttributeError
      | ObjectCol cs \<Rightarrow> Inl AttributeError)"

text \<open>Elementwise arithmetic and numpy functions on a numeric column; NaN stays NaN.\<close>

definition map_float :: "(real \<Rightarrow> real) \<Rightarrow> column \<Rightarrow> error + column" where
  "map_float g c =
     (case c of
        FloatCol xs \<Rightarrow> Inr (FloatCol (map (map_option g) xs))
      | DatetimeCol ts \<Rightarrow> Inl TypeError
      | ObjectCol cs \<Rightarrow> Inl TypeError)"

text \<open>\<^verbatim>\<open>col.values.astype(float)\<close>: a datetime becomes its nanosecond count, NaT the
  least 64-bit integer.\<close>

definition values_astype_float :: "column \<Rightarrow> error + column" where
  "values_astype_float c =
     (case c of
        DatetimeCol ts \<Rightarrow>
          Inr (FloatCol (map (\<lambda>t. Some (real_of_int (case t of None \<Rightarrow> - (2 ^ 63) | Some n \<Rightarrow> n))) ts))
      | FloatCol xs \<Rightarrow> Inr (FloatCol xs)
      | ObjectCol cs \<Rightarrow> Inl TypeError)"

text \<open>Python's \<^verbatim>\<open>str\<close> of an integer, for the f-strings that name the columns.\<close>

definition digit_char :: "nat \<Rightarrow> char" where
  "digit_char d = ''0123456789'' ! d"

fun str_nat :: "nat \<Rightarrow> string" where
  "str_nat n = (if n < 10 then [digit_char n] else str_nat (n div 10) @ [digit_char (n mod 10)])"

definition str_int :: "int \<Rightarrow> string" where
  "str_int i = (if i < 0 then CHR ''-'' # str_nat (nat (- i)) else str_nat (nat i))"

subsection \<open>The object and its attributes\<close>

datatype model_kind = model_MLE_' | model_MAP_'

datatype guide_kind = guide_MLE_' | AutoDelta model_kind

text \<open>The attributes \<^verbatim>\<open>__init__\<close> sets, and those \<^verbatim>\<open>fit\<close> adds (absent until then).\<close>

record chronos =
  method_' :: string
  n_iter_' :: int
  lr_' :: real
  year_seasonality_order_' :: int
  weekly_seasonality_order_' :: int
  month_seasonality_order_' :: int
  time_col_' :: string
  target_col_' :: string
  history :: "frame option"
  X_names :: "string list option"
  model :: "model_kind option"
  guide :: "guide_kind option"

definition init :: "string \<Rightarrow> string \<Rightarrow> string \<Rightarrow> int \<Rightarrow> int \<Rightarrow> int \<Rightarrow> real \<Rightarrow> int \<Rightarrow> chronos" where
  "init method time_col target_col year_seasonality_order month_seasonality_order
        weekly_seasonality_order learning_rate max_iter =
     \<lparr> method_' = method, n_iter_' = max_iter, lr_' = learning_rate,
       year_seasonality_order_' = year_seasonality_order,
       weekly_seasonality_order_' = weekly_seasonality_order,
       month_seasonality_order_' = month_seasonality_order,
       time_col_' = time_col, target_col_' = target_col,
       history = None, X_names = None, model = None, guide = None \<rparr>"

text \<open>The constructor's defaults.\<close>

definition default_chronos :: chronos where
  "default_chronos = init ''MLE'' ''ds'' ''y'' 10 5 3 (1 / 100) 1000"

text \<open>Reading a string-valued attribute by name: AttributeError for a name the object
  does not have.  The string attributes are \<^verbatim>\<open>method_\<close>, \<^verbatim>\<open>time_col_\<close> and
  \<^verbatim>\<open>target_col_\<close>; no method or attribute is called \<^verbatim>\<open>method\<close>.\<close>

definition getattr_str :: "chronos \<Rightarrow> string \<Rightarrow> error + string" where
  "getattr_str self name =
     (if name = ''method_'' then Inr (method_' self)
      else if name = ''time_col_'' then Inr (time_col_' self)
      else if name = ''target_col_'' then Inr (target_col_' self)
      else Inl AttributeError)"

text \<open>Reading an attribute that \<^verbatim>\<open>fit\<close> sets.\<close>

definition getattr_opt :: "'a option \<Rightarrow> error + 'a" where
  "getattr_opt v = (case v of None \<Rightarrow> Inl AttributeError | Some x \<Rightarrow> Inr x)"

subsection \<open>\<^verbatim>\<open>transform_data_\<close>\<close>

text \<open>
  Objects live in a store; a variable holds an address.  \<^verbatim>\<open>data.copy()\<close> allocates a
  new frame; an item assignment or \<^verbatim>\<open>insert\<close> on \<^verbatim>\<open>internal_data\<close> writes the frame
  at the address that variable holds; \<^verbatim>\<open>drop\<close> allocates its result.
\<close>

type_synonym addr = nat
type_synonym store = "frame list"

definition copy_df :: "store \<Rightarrow> addr \<Rightarrow> store \<times> addr" where
  "copy_df h a = (h @ [h ! a], length h)"

text \<open>A statement reads the frame at an address and writes its new value back there; a
  sequence of statements stops at the first exception, with the store as it then is.\<close>

fun exec :: "addr \<Rightarrow> (frame \<Rightarrow> error + frame) list \<Rightarrow> store \<Rightarrow> store \<times> error option" where
  "exec d [] h = (h, None)"
| "exec d (s # ss) h =
     (case s (h ! d) of Inl e \<Rightarrow> (h, Some e) | Inr f \<Rightarrow> exec d ss (h[d := f]))"

text \<open>Line 66: \<^verbatim>\<open>internal_data['weekday'] = internal_data[time_col].dt.dayofweek\<close>.\<close>

definition set_weekday :: "string \<Rightarrow> frame \<Rightarrow> error + frame" where
  "set_weekday time_col f =
     bindE (getitem f time_col) (\<lambda>c.
     bindE (dt_field dayofweek c) (\<lambda>v.
     Inr (setitem f ''weekday'' v)))"

text \<open>Lines 67 and 68: \<^verbatim>\<open>internal_data[helper] = internal_data[time_col].dt.field - 1\<close>,
  with \<^verbatim>\<open>day\<close> for \<^verbatim>\<open>'monthday'\<close> and \<^verbatim>\<open>dayofyear\<close> for \<^verbatim>\<open>'yearday'\<close>.\<close>

definition set_day_index :: "string \<Rightarrow> string \<Rightarrow> (int \<Rightarrow> int) \<Rightarrow> frame \<Rightarrow> error + frame" where
  "set_day_index time_col helper fld f =
     bindE (getitem f time_col) (\<lambda>c.
     bindE (dt_field fld c) (\<lambda>v.
     bindE (map_float (\<lambda>x. x - 1) v) (\<lambda>w.
     Inr (setitem f helper w))))"

text \<open>Line 71: the timestamp in days, \<^verbatim>\<open>values.astype(float)/(1e9*60*60*24)\<close>.\<close>

definition set_time_in_days :: "string \<Rightarrow> frame \<Rightarrow> error + frame" where
  "set_time_in_days time_col f =
     bindE (getitem f time_col) (\<lambda>c.
     bindE (values_astype_float c) (\<lambda>v.
     bindE (map_float (\<lambda>x. x / (1000000000 * 60 * 60 * 24)) v) (\<lambda>w.
     Inr (setitem f time_col w))))"

text \<open>One iteration of a seasonality loop (lines 75 to 94):
  \<^verbatim>\<open>cycle_position = i*2*math.pi*internal_data[helper]/period\<close>, then the sine and the
  cosine column.\<close>

definition seasonality_step :: "string \<Rightarrow> string \<Rightarrow> real \<Rightarrow> int \<Rightarrow> frame \<Rightarrow> error + frame" where
  "seasonality_step tag helper period i f =
     bindE (getitem f helper) (\<lambda>c.
     bindE (map_float (\<lambda>x. real_of_int i * 2 * pi * x / period) c) (\<lambda>cycle_position.
     bindE (map_float sin cycle_position) (\<lambda>s.
     bindE (map_float cos cycle_position) (\<lambda>co.
     Inr (setitem (setitem f (tag @ ''_sin_'' @ str_int i) s) (tag @ ''_cos_'' @ str_int i) co)))))"

text \<open>The statements of \<^verbatim>\<open>transform_data_\<close> between the copy and the final drop.\<close>

definition transform_body :: "chronos \<Rightarrow> (frame \<Rightarrow> error + frame) list" where
  "transform_body self =
     [ set_weekday (time_col_' self),
       set_day_index (time_col_' self) ''monthday'' day,
       set_day_index (time_col_' self) ''yearday'' dayofyear,
       set_time_in_days (time_col_' self) ]
     @ map (seasonality_step ''yearly'' ''yearday'' 366) [1..year_seasonality_order_' self]
     @ map (seasonality_step ''monthly'' ''monthday'' 31) [1..month_seasonality_order_' self]
     @ map (seasonality_step ''weekly'' ''weekday'' 7) [1..weekly_seasonality_order_' self]
     @ [ (\<lambda>f. insert_df f 0 ''CONST'' 1) ]"

definition transform_data_' :: "chronos \<Rightarrow> store \<Rightarrow> addr \<Rightarrow> store \<times> (error + addr)" where
  "transform_data_' self h data =
     (let (h1, internal_data) = copy_df h data;
          (h2, raised) = exec internal_data (transform_body self) h1
      in case raised of
           Some e \<Rightarrow> (h2, Inl e)
         | None \<Rightarrow>
            (case drop_df (h2 ! internal_data) [''weekday'', ''monthday'', ''yearday''] of
               Inl e \<Rightarrow> (h2, Inl e)
             | Inr f \<Rightarrow> (h2 @ [f], Inr (length h2))))"

text \<open>The call as \<^verbatim>\<open>fit\<close> and \<^verbatim>\<open>predict\<close> use it: on a frame, for its result.\<close>

definition transform_frame :: "chronos \<Rightarrow> frame \<Rightarrow> error + frame" where
  "transform_frame self data =
     (case transform_data_' self [data] 0 of
        (h, Inl e) \<Rightarrow> Inl e
      | (h, Inr r) \<Rightarrow> Inr (h ! r))"

subsection \<open>Tensors, the parameter store and the program state\<close>

text \<open>\<^verbatim>\<open>torch.tensor(col.values, dtype=torch.float32)\<close>: TypeError for a column that is
  not numeric.\<close>

definition to_tensor :: "column \<Rightarrow> error + float list" where
  "to_tensor c =
     (case c of
        FloatCol xs \<Rightarrow> Inr xs
      | DatetimeCol ts \<Rightarrow> Inl TypeError
      | ObjectCol cs \<Rightarrow> Inl TypeError)"

text \<open>\<^verbatim>\<open>torch.tensor(df.values, dtype=torch.float32)\<close>, kept as the list of its columns, so
  that \<^verbatim>\<open>X.size(1)\<close> is its length.\<close>

fun values_tensor :: "frame \<Rightarrow> error + float list list" where
  "values_tensor [] = Inr []"
| "values_tensor (p # ps) =
     bindE (to_tensor (snd p)) (\<lambda>xs. bindE (values_tensor ps) (\<lambda>r. Inr (xs # r)))"

text \<open>What a training run leaves behind: a value for each coefficient index, the noise scale
  and the degrees of freedom.  The optimiser \<open>svi\<close> stands for pyro's \<^verbatim>\<open>SVI.step\<close> loop.\<close>

record fitted =
  coef :: "nat \<Rightarrow> real"
  sigma :: real
  df :: real

type_synonym param_store = "string \<Rightarrow> real list option"

type_synonym trainer =
  "model_kind \<Rightarrow> guide_kind \<Rightarrow> float list list \<Rightarrow> float list \<Rightarrow> real \<Rightarrow> int \<Rightarrow> error + fitted"

text \<open>The parameters by name: \<^verbatim>\<open>model_MLE_\<close> declares \<^verbatim>\<open>betas\<close> (of length
  \<^verbatim>\<open>X.size(1)\<close>) and \<^verbatim>\<open>sigma\<close>; the \<^verbatim>\<open>AutoDelta\<close> guide of \<^verbatim>\<open>model_MAP_\<close> holds
  its sites \<^verbatim>\<open>betas\<close>, \<^verbatim>\<open>sigma\<close> and \<^verbatim>\<open>df\<close> under its own prefix.\<close>

definition store_params :: "model_kind \<Rightarrow> fitted \<Rightarrow> nat \<Rightarrow> param_store" where
  "store_params m p n =
     (case m of
        model_MLE_' \<Rightarrow> [''betas'' \<mapsto> map (coef p) [0..<n], ''sigma'' \<mapsto> [sigma p]]
      | model_MAP_' \<Rightarrow> [''AutoDelta.betas'' \<mapsto> map (coef p) [0..<n],
                        ''AutoDelta.sigma'' \<mapsto> [sigma p], ''AutoDelta.df'' \<mapsto> [df p]])"

text \<open>The object, pyro's process-wide parameter store, and the lines \<^verbatim>\<open>fit\<close> prints
  (the trainer's progress lines are left out).\<close>

record state =
  obj :: chronos
  params :: param_store
  stdout :: "string list"

subsection \<open>\<^verbatim>\<open>fit\<close> and \<^verbatim>\<open>train_point_estimate\<close>\<close>

text \<open>The store is cleared, then the loop runs \<^verbatim>\<open>n_iter_\<close> steps.  With no step the
  loop variable \<^verbatim>\<open>step\<close> is unbound where line 186 reads it; with no rows line 178 divides
  by \<^verbatim>\<open>y.shape[0] = 0\<close>.\<close>

definition train_point_estimate ::
  "trainer \<Rightarrow> state \<Rightarrow> model_kind \<Rightarrow> guide_kind \<Rightarrow> float list list \<Rightarrow> float list
     \<Rightarrow> state \<times> (error + unit)" where
  "train_point_estimate svi st m g X y =
     (let st1 = st\<lparr>params := Map.empty\<rparr> in
      if n_iter_' (obj st1) \<le> 0 then (st1, Inl UnboundLocalError)
      else
        (case svi m g X y (lr_' (obj st1)) (n_iter_' (obj st1)) of
           Inl e \<Rightarrow> (st1, Inl e)
         | Inr p \<Rightarrow>
            (let st2 = st1\<lparr>params := store_params m p (length X)\<rparr> in
             if length y = 0 then (st2, Inl ZeroDivisionError) else (st2, Inr ()))))"

definition print :: "string \<Rightarrow> state \<Rightarrow> state" where
  "print line st = st\<lparr>stdout := stdout st @ [line]\<rparr>"

text \<open>Lines 131 to 150, the dispatch on the method.  The last branch reads
  \<^verbatim>\<open>self.method\<close>.\<close>

definition fit_dispatch ::
  "trainer \<Rightarrow> state \<Rightarrow> float list list \<Rightarrow> float list \<Rightarrow> state \<times> (error + unit)" where
  "fit_dispatch svi st X y =
     (if method_' (obj st) \<in> set [''MLE'', ''MAP''] then
        (if method_' (obj st) = ''MLE'' then
           (let st1 = print ''Employing Maximum Likelihood Estimation'' st;
                st2 = st1\<lparr>obj := (obj st1)\<lparr>model := Some model_MLE_', guide := Some guide_MLE_'\<rparr>\<rparr>
            in train_point_estimate svi st2 model_MLE_' guide_MLE_' X y)
         else
           (let st1 = print ''Employing Maximum A Posteriori'' st;
                st2 = st1\<lparr>obj := (obj st1)\<lparr>model := Some model_MAP_',
                                              guide := Some (AutoDelta model_MAP_')\<rparr>\<rparr>
            in train_point_estimate svi st2 model_MAP_' (AutoDelta model_MAP_') X y))
      else
        (case getattr_str (obj st) ''method'' of
           Inl e \<Rightarrow> (st, Inl e)
         | Inr m \<Rightarrow>
            if m = ''MCMC'' then (print ''Employing Markov Chain Monte Carlo'' st, Inr ())
            else (st, Inr ())))"

definition fit :: "trainer \<Rightarrow> state \<Rightarrow> frame \<Rightarrow> state \<times> (error + unit)" where
  "fit svi st data =
     (let st1 = st\<lparr>obj := (obj st)\<lparr>history := Some data\<rparr>\<rparr> in
      case transform_frame (obj st1) data of
        Inl e \<Rightarrow> (st1, Inl e)
      | Inr internal_data \<Rightarrow>
         (case bindE (getitem internal_data (target_col_' (obj st1))) to_tensor of
            Inl e \<Rightarrow> (st1, Inl e)
          | Inr y \<Rightarrow>
             (case drop_df internal_data [target_col_' (obj st1)] of
                Inl e \<Rightarrow> (st1, Inl e)
              | Inr internal_data2 \<Rightarrow>
                 (case values_tensor internal_data2 of
                    Inl e \<Rightarrow> (st1, Inl e)
                  | Inr X \<Rightarrow>
                     fit_dispatch svi
                       (st1\<lparr>obj := (obj st1)\<lparr>X_names := Some (columns internal_data2)\<rparr>\<rparr>)
                       X y))))"

subsection \<open>\<^verbatim>\<open>predict\<close>\<close>

text \<open>
  A Python float is an IEEE 754 binary64 number.  A finite float is modelled by the real
  it denotes.  An operation computes the exact result and rounds it to the nearest float,
  a tie going to the even mantissa: the result keeps 53 significant bits, counted from
  the leading bit of the exact result (\<open>float_exponent\<close>), and no bit below
  \<open>2 powi - 1074\<close>.  A result of magnitude \<open>2 powi 1024\<close> or more is an infinity in
  Python; it is recognised where the source converts it to an integer.
\<close>

definition float_exponent :: "real \<Rightarrow> int" where
  "float_exponent x =
     (if 1 \<le> \<bar>x\<bar> then bitlen \<lfloor>\<bar>x\<bar>\<rfloor> - 1 else - bitlen (\<lceil>1 / \<bar>x\<bar>\<rceil> - 1))"

definition round_half_even :: "real \<Rightarrow> int" where
  "round_half_even x =
     (let f = \<lfloor>x\<rfloor>; d = x - of_int f
      in if d < 1 / 2 then f else if 1 / 2 < d then f + 1 else if even f then f else f + 1)"

definition float_round :: "real \<Rightarrow> real" where
  "float_round x =
     (if x = 0 then 0
      else let q = 2 powi (max (float_exponent x) (- 1022) - 52)
           in of_int (round_half_even (x / q)) * q)"

definition float_sub :: "real \<Rightarrow> real \<Rightarrow> real" where
  "float_sub a b = float_round (a - b)"

definition float_mul :: "real \<Rightarrow> real \<Rightarrow> real" where
  "float_mul a b = float_round (a * b)"

definition float_div :: "real \<Rightarrow> real \<Rightarrow> real" where
  "float_div a b = float_round (a / b)"

text \<open>The product of a Python \<^verbatim>\<open>int\<close> and a float: the integer is converted to the
  nearest float first, with OverflowError when that is no finite float.\<close>

definition float_of_int :: "int \<Rightarrow> error + real" where
  "float_of_int n =
     (if 2 powi 1024 \<le> \<bar>float_round (of_int n)\<bar> then Inl OverflowError
      else Inr (float_round (of_int n)))"

definition int_mul_float :: "int \<Rightarrow> real \<Rightarrow> error + real" where
  "int_mul_float n x = bindE (float_of_int n) (\<lambda>a. Inr (float_mul a x))"

text \<open>Python's \<^verbatim>\<open>int\<close> of a float truncates towards zero; OverflowError on an
  infinity.\<close>

definition py_int :: "real \<Rightarrow> error + int" where
  "py_int x =
     (if 2 powi 1024 \<le> \<bar>x\<bar> then Inl OverflowError
      else Inr (if 0 \<le> x then \<lfloor>x\<rfloor> else \<lceil>x\<rceil>))"

text \<open>The sampler stands for pyro's \<^verbatim>\<open>Predictive\<close>: it fails, or gives the draw of the
  site \<^verbatim>\<open>obs\<close> for each sample index and row.  \<^verbatim>\<open>samples['obs']\<close> has one row per
  sample and one column per input row.\<close>

type_synonym sampler =
  "model_kind \<Rightarrow> guide_kind \<Rightarrow> param_store \<Rightarrow> float list list \<Rightarrow> nat
     \<Rightarrow> error + (nat \<Rightarrow> nat \<Rightarrow> real)"

definition obs_of_row :: "(nat \<Rightarrow> nat \<Rightarrow> real) \<Rightarrow> nat \<Rightarrow> nat \<Rightarrow> real list" where
  "obs_of_row draws num_samples r = map (\<lambda>s. draws s r) [0..<num_samples]"

text \<open>\<^verbatim>\<open>torch.mean(samples, 0)\<close>.\<close>

definition mean_dim0 :: "(nat \<Rightarrow> nat \<Rightarrow> real) \<Rightarrow> nat \<Rightarrow> nat \<Rightarrow> real list" where
  "mean_dim0 draws num_samples n =
     map (\<lambda>r. sum_list (obs_of_row draws num_samples r) / real num_samples) [0..<n]"

text \<open>\<^verbatim>\<open>samples.kthvalue(k, dim=0)[0]\<close>: the k-th smallest draw of every row, counting
  from 1; RuntimeError when k is out of range.\<close>

definition kthvalue_dim0 :: "(nat \<Rightarrow> nat \<Rightarrow> real) \<Rightarrow> nat \<Rightarrow> nat \<Rightarrow> int \<Rightarrow> error + real list" where
  "kthvalue_dim0 draws num_samples n k =
     (if 1 \<le> k \<and> k \<le> int num_samples
      then Inr (map (\<lambda>r. sort (obs_of_row draws num_samples r) ! nat (k - 1)) [0..<n])
      else Inl RuntimeError)"

definition predict :: "sampler \<Rightarrow> state \<Rightarrow> frame \<Rightarrow> nat \<Rightarrow> real \<Rightarrow> error + frame" where
  "predict pred st data sample_number ci_interval =
     bindE (transform_frame (obj st) data) (\<lambda>internal_data.
     bindE (bindE (getitem internal_data (target_col_' (obj st))) to_tensor) (\<lambda>y.
     bindE (drop_df internal_data [target_col_' (obj st)]) (\<lambda>internal_data2.
     bindE (values_tensor internal_data2) (\<lambda>X.
     if method_' (obj st) \<in> set [''MAP'', ''MLE''] then
       bindE (getattr_opt (model (obj st))) (\<lambda>m.
       bindE (getattr_opt (guide (obj st))) (\<lambda>g.
       bindE (pred m g (params st) X sample_number) (\<lambda>draws.
       let n = nrows internal_data2;
           len_samples = int sample_number;
           space_on_each_side = float_div (float_sub 1 ci_interval) 2
       in
       bindE (bindE (int_mul_float len_samples space_on_each_side) py_int) (\<lambda>lower_ntile.
       bindE (bindE (int_mul_float len_samples (float_sub 1 space_on_each_side)) py_int)
         (\<lambda>upper_ntile.
       let yhat = mean_dim0 draws sample_number n
       in
       bindE (kthvalue_dim0 draws sample_number n lower_ntile) (\<lambda>yhat_lower.
       bindE (kthvalue_dim0 draws sample_number n upper_ntile) (\<lambda>yhat_upper.
       let predictions = [(''yhat'', FloatCol (map Some yhat)),
                          (''yhat_lower'', FloatCol (map Some yhat_lower)),
                          (''yhat_upper'', FloatCol (map Some yhat_upper))];
           predictions1 = setitem predictions ''y'' (FloatCol y)
       in
       bindE (getitem data (time_col_' (obj st))) (\<lambda>t.
       select_df (setitem predictions1 (time_col_' (obj st)) t)
         [time_col_' (obj st), ''y'', ''yhat'', ''yhat_upper'', ''yhat_lower'']))))))))
     else Inl NotImplementedError))))"

subsection \<open>\<^verbatim>\<open>make_future_dataframe\<close>\<close>

text \<open>The frequencies modelled are pandas' fixed-length ticks: the aliases \<^verbatim>\<open>"D"\<close>,
  \<^verbatim>\<open>"H"\<close>, \<^verbatim>\<open>"T"\<close> and \<^verbatim>\<open>"S"\<close>.  Calendar-anchored offsets are not modelled.\<close>

datatype frequency = Freq_D | Freq_H | Freq_T | Freq_S

fun tick_ns :: "frequency \<Rightarrow> int" where
  "tick_ns Freq_D = ns_per_day"
| "tick_ns Freq_H = 3600000000000"
| "tick_ns Freq_T = 60000000000"
| "tick_ns Freq_S = 1000000000"

text \<open>\<^verbatim>\<open>Series.max()\<close> of a datetime column skips NaT, and is NaT when nothing is left.\<close>

fun max_ts :: "timestamp list \<Rightarrow> timestamp" where
  "max_ts [] = None"
| "max_ts (None # ts) = max_ts ts"
| "max_ts (Some t # ts) = (case max_ts ts of None \<Rightarrow> Some t | Some m \<Rightarrow> Some (max t m))"

text \<open>A \<^verbatim>\<open>datetime64[ns]\<close> value is a 64-bit count of nanoseconds: the latest timestamp
  is \<open>2\<^sup>6\<^sup>3 - 1\<close> ns after the epoch (2262-04-11 23:47:16.854775807).\<close>

definition max_timestamp :: int where
  "max_timestamp = 2 ^ 63 - 1"

text \<open>\<^verbatim>\<open>pd.date_range(start=str(m), periods=n, freq=f)\<close>: the string of a timestamp reads
  back as that timestamp; NaT as a start is refused with ValueError, and so is what is no
  timestamp at all (pandas' own parsing failure, written \<open>LibraryError\<close>).  A range whose
  last point lies after the latest timestamp is refused with OutOfBoundsDatetime.\<close>

definition date_range :: "timestamp \<Rightarrow> nat \<Rightarrow> frequency \<Rightarrow> error + int list" where
  "date_range start periods freq =
     (case start of
        None \<Rightarrow> Inl ValueError
      | Some t \<Rightarrow>
          if 0 < periods \<and> max_timestamp < t + (int periods - 1) * tick_ns freq
          then Inl OutOfBoundsDatetime
          else Inr (map (\<lambda>k. t + int k * tick_ns freq) [0..<periods]))"

definition max_of_column :: "column \<Rightarrow> error + timestamp" where
  "max_of_column c =
     (case c of
        DatetimeCol ts \<Rightarrow> Inr (max_ts ts)
      | FloatCol xs \<Rightarrow> Inl LibraryError
      | ObjectCol cs \<Rightarrow> Inl LibraryError)"

text \<open>\<^verbatim>\<open>pd.concat([a, b], axis=0).reset_index(drop=True)\<close>: the rows of \<open>a\<close>, then those
  of \<open>b\<close>; the columns of \<open>a\<close>, then those only \<open>b\<close> has; a column one frame lacks is
  filled with missing values there; columns of two dtypes meet in an object column.\<close>

fun to_cells :: "column \<Rightarrow> cell list" where
  "to_cells (DatetimeCol ts) = map TsCell ts"
| "to_cells (FloatCol xs) = map FloatCell xs"
| "to_cells (ObjectCol cs) = cs"

fun na_like :: "column \<Rightarrow> nat \<Rightarrow> column" where
  "na_like (DatetimeCol ts) n = DatetimeCol (replicate n None)"
| "na_like (FloatCol xs) n = FloatCol (replicate n None)"
| "na_like (ObjectCol cs) n = ObjectCol (replicate n (FloatCell None))"

fun append_col :: "column \<Rightarrow> column \<Rightarrow> column" where
  "append_col (DatetimeCol a) (DatetimeCol b) = DatetimeCol (a @ b)"
| "append_col (FloatCol a) (FloatCol b) = FloatCol (a @ b)"
| "append_col a b = ObjectCol (to_cells a @ to_cells b)"

definition concat_df :: "frame \<Rightarrow> frame \<Rightarrow> frame" where
  "concat_df a b =
     map (\<lambda>p. (fst p, case map_of b (fst p) of
                         None \<Rightarrow> append_col (snd p) (na_like (snd p) (nrows b))
                       | Some c \<Rightarrow> append_col (snd p) c)) a
     @ map (\<lambda>p. (fst p, append_col (na_like (snd p) (nrows a)) (snd p)))
         (filter (\<lambda>p. fst p \<notin> set (columns a)) b)"

text \<open>The parameter \<^verbatim>\<open>include_history\<close> is accepted and never read.\<close>

definition make_future_dataframe :: "state \<Rightarrow> nat \<Rightarrow> frequency \<Rightarrow> bool \<Rightarrow> error + frame" where
  "make_future_dataframe st period freq include_history =
     bindE (getattr_opt (history (obj st))) (\<lambda>hist.
     bindE (getitem hist (time_col_' (obj st))) (\<lambda>c.
     bindE (max_of_column c) (\<lambda>max_date_observed.
     bindE (date_range max_date_observed (period + 1) freq) (\<lambda>r.
     let dates = tl r;
         future_df = setitem (setitem [] (time_col_' (obj st)) (DatetimeCol (map Some dates)))
                       (target_col_' (obj st)) (FloatCol (replicate (length dates) None));
         past_df = hist
     in Inr (concat_df past_df future_df)))))"

subsection \<open>The seasonality curves\<close>

text \<open>Lines 345 to 348: the coefficients whose column name contains the tag, in order.
  \<^verbatim>\<open>X_names[i]\<close> raises IndexError past the end of the names.\<close>

fun collect_params :: "string \<Rightarrow> string list \<Rightarrow> nat \<Rightarrow> real list \<Rightarrow> error + real list" where
  "collect_params tag names i [] = Inr []"
| "collect_params tag names i (b # bs) =
     (if length names \<le> i then Inl IndexError
      else bindE (collect_params tag names (Suc i) bs)
             (\<lambda>r. Inr (if sublist tag (names ! i) then b # r else r)))"

text \<open>\<^verbatim>\<open>np.array(ps).reshape(-1, 2)\<close>: consecutive pairs; ValueError for an odd count.\<close>

fun reshape2 :: "real list \<Rightarrow> error + (real \<times> real) list" where
  "reshape2 [] = Inr []"
| "reshape2 [a] = Inl ValueError"
| "reshape2 (a # b # r) = bindE (reshape2 r) (\<lambda>q. Inr ((a, b) # q))"

text \<open>Lines 355 to 361: each pair adds its sine and cosine wave to every day's value.\<close>

definition add_cycle :: "real \<Rightarrow> nat list \<Rightarrow> nat \<times> real \<times> real \<Rightarrow> real list \<Rightarrow> real list" where
  "add_cycle period days ip seasonality =
     (let cycle_order = fst ip + 1; sin_coef = fst (snd ip); cosin_coef = snd (snd ip)
      in map2 (\<lambda>d v. v + (sin_coef * sin (real cycle_order * 2 * pi * real d / period)
                         + cosin_coef * cos (real cycle_order * 2 * pi * real d / period)))
           days seasonality)"

definition seasonality_point ::
  "string \<Rightarrow> nat \<Rightarrow> real \<Rightarrow> string \<Rightarrow> nat \<Rightarrow> state \<Rightarrow> string \<Rightarrow> error + frame" where
  "seasonality_point tag n_days period label first_day st param_name =
     bindE (case params st param_name of None \<Rightarrow> Inl LibraryError | Some bs \<Rightarrow> Inr bs) (\<lambda>betas.
     bindE (getattr_opt (X_names (obj st))) (\<lambda>names.
     bindE (collect_params tag names 0 betas) (\<lambda>ps.
     bindE (reshape2 ps) (\<lambda>pairs.
     let days = [0..<n_days];
         seasonality = fold (add_cycle period days) (enumerate 0 pairs) (map (\<lambda>d. 0) days)
     in Inr [(label, FloatCol (map (\<lambda>d. Some (real (d + first_day))) days)),
             (''Value'', FloatCol (map Some seasonality))]))))"

definition get_weekly_seasonality_point :: "state \<Rightarrow> string \<Rightarrow> error + frame" where
  "get_weekly_seasonality_point = seasonality_point ''weekly'' 7 7 ''Weekday'' 0"

definition get_monthly_seasonality_point :: "state \<Rightarrow> string \<Rightarrow> error + frame" where
  "get_monthly_seasonality_point = seasonality_point ''monthly'' 31 30 ''Monthday'' 1"

definition get_yearly_seasonality_point :: "state \<Rightarrow> string \<Rightarrow> error + frame" where
  "get_yearly_seasonality_point = seasonality_point ''yearly'' 366 366 ''Yearday'' 1"

definition get_weekly_seasonality :: "state \<Rightarrow> error + frame" where
  "get_weekly_seasonality st =
     (if method_' (obj st) = ''MAP'' then get_weekly_seasonality_point st ''AutoDelta.betas''
      else if method_' (obj st) = ''MLE'' then get_weekly_seasonality_point st ''betas''
      else Inl NotImplementedError)"

definition get_monthly_seasonality :: "state \<Rightarrow> error + frame" where
  "get_monthly_seasonality st =
     (if method_' (obj st) = ''MAP'' then get_monthly_seasonality_point st ''AutoDelta.betas''
      else if method_' (obj st) = ''MLE'' then get_monthly_seasonality_point st ''betas''
      else Inl NotImplementedError)"

definition get_yearly_seasonality :: "state \<Rightarrow> error + frame" where
  "get_yearly_seasonality st =
     (if method_' (obj st) = ''MAP'' then get_yearly_seasonality_point st ''AutoDelta.betas''
      else if method_' (obj st) = ''MLE'' then get_yearly_seasonality_point st ''betas''
      else Inl NotImplementedError)"

subsection \<open>Auxiliary notions for the statements and proofs\<close>

text \<open>The statements of a sequence run on a frame value, without a store.\<close>

fun run :: "(frame \<Rightarrow> error + frame) list \<Rightarrow> frame \<Rightarrow> error + frame" where
  "run [] f = Inr f"
| "run (s # ss) f = bindE (s f) (run ss)"

definition harmonic_pair :: "string \<Rightarrow> real \<Rightarrow> float list \<Rightarrow> int \<Rightarrow> frame" where
  "harmonic_pair tag period idx i =
     [(tag @ ''_sin_'' @ str_int i,
       FloatCol (map (map_option (\<lambda>x. sin (real_of_int i * 2 * pi * x / period))) idx)),
      (tag @ ''_cos_'' @ str_int i,
       FloatCol (map (map_option (\<lambda>x. cos (real_of_int i * 2 * pi * x / period))) idx))]"

definition harmonic_columns :: "string \<Rightarrow> real \<Rightarrow> float list \<Rightarrow> int \<Rightarrow> frame" where
  "harmonic_columns tag period idx n = concat (map (harmonic_pair tag period idx) [1..n])"

definition harmonic_names :: "string \<Rightarrow> int \<Rightarrow> string list" where
  "harmonic_names tag n = concat (map (\<lambda>i. [tag @ ''_sin_'' @ str_int i, tag @ ''_cos_'' @ str_int i]) [1..n])"

definition helper_names :: "string list" where
  "helper_names = [''weekday'', ''monthday'', ''yearday'']"

definition generated_names :: "chronos \<Rightarrow> string list" where
  "generated_names self =
     ''CONST'' # harmonic_names ''yearly'' (year_seasonality_order_' self)
     @ harmonic_names ''monthly'' (month_seasonality_order_' self)
     @ harmonic_names ''weekly'' (weekly_seasonality_order_' self)"

definition weekday_idx :: "timestamp list \<Rightarrow> float list" where
  "weekday_idx ts = map (map_option (\<lambda>t. real_of_int (dayofweek t))) ts"

definition monthday_idx :: "timestamp list \<Rightarrow> float list" where
  "monthday_idx ts = map (map_option (\<lambda>t. real_of_int (day t) - 1)) ts"

definition yearday_idx :: "timestamp list \<Rightarrow> float list" where
  "yearday_idx ts = map (map_option (\<lambda>t. real_of_int (dayofyear t) - 1)) ts"

definition time_in_days :: "timestamp list \<Rightarrow> float list" where
  "time_in_days ts =
     map (\<lambda>t. Some (real_of_int (case t of None \<Rightarrow> - (2 ^ 63) | Some n \<Rightarrow> n)
                     / (1000000000 * 60 * 60 * 24))) ts"

definition valid_series :: "chronos \<Rightarrow> frame \<Rightarrow> bool" where
  "valid_series self data =
     ((case map_of data (time_col_' self) of Some (DatetimeCol ts) \<Rightarrow> True | _ \<Rightarrow> False)
      \<and> list_all (\<lambda>n. n \<notin> set (columns data)) (helper_names @ generated_names self))"

definition transformed :: "chronos \<Rightarrow> frame \<Rightarrow> timestamp list \<Rightarrow> frame" where
  "transformed self data ts =
     (''CONST'', FloatCol (replicate (nrows data) (Some 1)))
     # setitem data (time_col_' self) (FloatCol (time_in_days ts))
     @ harmonic_columns ''yearly'' 366 (yearday_idx ts) (year_seasonality_order_' self)
     @ harmonic_columns ''monthly'' 31 (monthday_idx ts) (month_seasonality_order_' self)
     @ harmonic_columns ''weekly'' 7 (weekday_idx ts) (weekly_seasonality_order_' self)"

definition sincos_names :: "chronos \<Rightarrow> string list" where
  "sincos_names self =
     harmonic_names ''yearly'' (year_seasonality_order_' self)
     @ harmonic_names ''monthly'' (month_seasonality_order_' self)
     @ harmonic_names ''weekly'' (weekly_seasonality_order_' self)"

definition feature_columns :: "chronos \<Rightarrow> frame \<Rightarrow> error + string list" where
  "feature_columns self data =
     bindE (transform_frame self data) (\<lambda>internal_data.
     bindE (drop_df internal_data [target_col_' self]) (\<lambda>x. Inr (columns x)))"

definition transform_columns :: "chronos \<Rightarrow> frame \<Rightarrow> error + string list" where
  "transform_columns self data = bindE (transform_frame self data) (\<lambda>out. Inr (columns out))"

definition sincos_ok :: "timestamp list \<Rightarrow> column \<Rightarrow> bool" where
  "sincos_ok ts c =
     (case c of
        FloatCol xs \<Rightarrow>
          list_all2 (\<lambda>t x. case t of None \<Rightarrow> x = None
                           | Some u \<Rightarrow> (case x of None \<Rightarrow> False | Some v \<Rightarrow> - 1 \<le> v \<and> v \<le> 1)) ts xs
      | DatetimeCol us \<Rightarrow> False
      | ObjectCol cs \<Rightarrow> False)"

definition time_values :: "chronos \<Rightarrow> frame \<Rightarrow> timestamp list" where
  "time_values self data =
     (case map_of data (time_col_' self) of Some (DatetimeCol ts) \<Rightarrow> ts | _ \<Rightarrow> [])"

definition example_model :: chronos where
  "example_model = init ''MLE'' ''ds'' ''y'' 1 1 1 (1 / 100) 1000"

definition example_series :: frame where
  "example_series = [(''ds'', DatetimeCol [Some 0, Some 86400000000000]), (''y'', FloatCol [Some 1, Some 2])]"

definition clash_model :: chronos where
  "clash_model = init ''MLE'' ''ds'' ''y'' 1 0 1 (1 / 100) 1000"

definition clash_series :: frame where
  "clash_series = [(''ds'', DatetimeCol [Some 0]), (''y'', FloatCol [Some 1]),
                   (''weekly_sin_1'', FloatCol [Some 5])]"

definition call_twice :: "chronos \<Rightarrow> store \<Rightarrow> addr \<Rightarrow> (error + frame) \<times> (error + frame)" where
  "call_twice self h data =
     (let (h1, r1) = transform_data_' self h data;
          (h2, r2) = transform_data_' self h1 data
      in (map_sum id (\<lambda>x. h1 ! x) r1, map_sum id (\<lambda>y. h2 ! y) r2))"

definition preprocess :: "chronos \<Rightarrow> frame \<Rightarrow> error + (float list \<times> frame \<times> float list list)" where
  "preprocess self data =
     bindE (transform_frame self data) (\<lambda>internal_data.
     bindE (bindE (getitem internal_data (target_col_' self)) to_tensor) (\<lambda>y.
     bindE (drop_df internal_data [target_col_' self]) (\<lambda>internal_data2.
     bindE (values_tensor internal_data2) (\<lambda>X. Inr (y, internal_data2, X)))))"

definition with_history :: "state \<Rightarrow> frame \<Rightarrow> state" where
  "with_history st data = st\<lparr>obj := (obj st)\<lparr>history := Some data\<rparr>\<rparr>"

definition with_X_names :: "state \<Rightarrow> string list \<Rightarrow> state" where
  "with_X_names st names = st\<lparr>obj := (obj st)\<lparr>X_names := Some names\<rparr>\<rparr>"

definition is_float :: "column \<Rightarrow> bool" where
  "is_float c = (case c of FloatCol xs \<Rightarrow> True | DatetimeCol ts \<Rightarrow> False | ObjectCol cs \<Rightarrow> False)"

definition mcmc_state :: state where
  "mcmc_state = \<lparr>obj = init ''MCMC'' ''ds'' ''y'' 1 1 1 (1 / 100) 1000, params = Map.empty, stdout = []\<rparr>"

definition zero_trainer :: trainer where
  "zero_trainer m g X y lr n = Inr \<lparr>coef = (\<lambda>i. 0), sigma = 1, df = 1\<rparr>"

definition zero_sampler :: sampler where
  "zero_sampler m g ps X n = Inr (\<lambda>s r. 0)"

definition betas_name :: "chronos \<Rightarrow> string" where
  "betas_name self = (if method_' self = ''MAP'' then ''AutoDelta.betas'' else ''betas'')"

definition initial_state :: state where
  "initial_state = \<lparr>obj = example_model, params = Map.empty, stdout = []\<rparr>"

definition fitted_example :: state where
  "fitted_example = fst (fit zero_trainer initial_state example_series)"

definition new_dates :: "int \<Rightarrow> nat \<Rightarrow> frequency \<Rightarrow> int list" where
  "new_dates m period freq = map (\<lambda>k. m + int k * tick_ns freq) [1..<Suc period]"



text \<open>The two ranks as \<^verbatim>\<open>predict\<close> computes them from the sample count and the
  confidence level.\<close>

definition lower_rank :: "nat \<Rightarrow> real \<Rightarrow> error + int" where
  "lower_rank n ci = bindE (int_mul_float (int n) (float_div (float_sub 1 ci) 2)) py_int"

definition upper_rank :: "nat \<Rightarrow> real \<Rightarrow> error + int" where
  "upper_rank n ci =
     bindE (int_mul_float (int n) (float_sub 1 (float_div (float_sub 1 ci) 2))) py_int"

text \<open>A series without the target column, and a series whose last day is 2262-04-11,
  the day of the latest timestamp.\<close>

definition no_target_series :: frame where
  "no_target_series = [(''ds'', DatetimeCol [Some 0, Some 86400000000000])]"

definition late_series :: frame where
  "late_series = [(''ds'', DatetimeCol [Some 0, Some 9223286400000000000]), (''y'', FloatCol [Some 1, Some 2])]"

definition wave :: "real \<Rightarrow> real \<times> real \<Rightarrow> nat \<Rightarrow> nat \<Rightarrow> real" where
  "wave period q order d =
     fst q * sin (real order * 2 * pi * real d / period)
     + snd q * cos (real order * 2 * pi * real d / period)"

definition decomposed_value :: "real list \<Rightarrow> real \<Rightarrow> nat \<Rightarrow> real" where
  "decomposed_value ps period d =
     (\<Sum>i<length ps div 2.
        ps ! (2 * i) * sin (real (i + 1) * 2 * pi * real d / period)
        + ps ! (2 * i + 1) * cos (real (i + 1) * 2 * pi * real d / period))"

definition tagged_coefficients :: "string \<Rightarrow> string list \<Rightarrow> real list \<Rightarrow> real list" where
  "tagged_coefficients tag names betas =
     map fst (filter (\<lambda>p. sublist tag (snd p)) (zip betas names))"

definition seasonality_table :: "string \<Rightarrow> nat \<Rightarrow> nat \<Rightarrow> real \<Rightarrow> real list \<Rightarrow> frame" where
  "seasonality_table label first_day n_days period ps =
     [(label, FloatCol (map (\<lambda>d. Some (real (d + first_day))) [0..<n_days])),
      (''Value'', FloatCol (map (\<lambda>d. Some (decomposed_value ps period d)) [0..<n_days]))]"

definition promo_series :: frame where
  "promo_series = [(''ds'', DatetimeCol [Some 0, Some 86400000000000]), (''y'', FloatCol [Some 1, Some 2]),
                   (''weekly_promo'', FloatCol [Some 0, Some 1])]"

section \<open>Properties\<close>

subsection \<open>Exceptions and the store\<close>

lemma bindE_Inl [simp]: "bindE (Inl e) k = Inl e"
  by (simp add: bindE_def)

lemma bindE_Inr [simp]: "bindE (Inr x) k = k x"
  by (simp add: bindE_def)

lemma bindE_eq_Inr: "bindE m k = Inr y \<longleftrightarrow> (\<exists>x. m = Inr x \<and> k x = Inr y)"
  by (cases m) simp_all

lemma exec_length: "length (fst (exec d ss h)) = length h"
  by (induction ss arbitrary: h) (auto split: sum.splits)

lemma exec_other: "a \<noteq> d \<Longrightarrow> fst (exec d ss h) ! a = h ! a"
  by (induction ss arbitrary: h) (auto split: sum.splits)

lemma exec_run_ok:
  "d < length h \<Longrightarrow> run ss (h ! d) = Inr f \<Longrightarrow> exec d ss h = (h[d := f], None)"
proof (induction ss arbitrary: h)
  case Nil
  then show ?case by (auto simp: list_update_same_conv)
next
  case (Cons s ss)
  from Cons.prems(2) obtain g where g: "s (h ! d) = Inr g" and r: "run ss g = Inr f"
    by (auto simp: bindE_eq_Inr)
  have "exec d ss (h[d := g]) = ((h[d := g])[d := f], None)"
    using Cons.IH[of "h[d := g]"] Cons.prems(1) r by simp
  then show ?case using g by simp
qed

lemma exec_run_err:
  "d < length h \<Longrightarrow> run ss (h ! d) = Inl e \<Longrightarrow> snd (exec d ss h) = Some e"
proof (induction ss arbitrary: h)
  case Nil
  then show ?case by simp
next
  case (Cons s ss)
  show ?case
  proof (cases "s (h ! d)")
    case (Inl e')
    then show ?thesis using Cons.prems by simp
  next
    case (Inr g)
    then have "run ss g = Inl e" using Cons.prems(2) by simp
    then have "snd (exec d ss (h[d := g])) = Some e"
      using Cons.IH[of "h[d := g]"] Cons.prems(1) by simp
    then show ?thesis using Inr by simp
  qed
qed

lemma run_append: "run (xs @ ys) f = bindE (run xs f) (run ys)"
  by (induction xs arbitrary: f) (auto simp: bindE_def split: sum.splits)

text \<open>The result of \<^verbatim>\<open>transform_data_\<close> is that of its statements run on the frame.\<close>

lemma transform_frame_run:
  "transform_frame self data =
     bindE (run (transform_body self) data) (\<lambda>f. drop_df f [''weekday'', ''monthday'', ''yearday''])"
proof (cases "run (transform_body self) data")
  case (Inl e)
  then have "snd (exec (Suc 0) (transform_body self) [data, data]) = Some e"
    using exec_run_err[of "Suc 0" "[data, data]" "transform_body self" e] by simp
  then show ?thesis using Inl
    by (auto simp: transform_frame_def transform_data_'_def copy_df_def split: prod.splits)
next
  case (Inr f)
  then have "exec (Suc 0) (transform_body self) [data, data] = ([data, f], None)"
    using exec_run_ok[of "Suc 0" "[data, data]" "transform_body self" f] by simp
  then show ?thesis using Inr
    by (auto simp: transform_frame_def transform_data_'_def copy_df_def split: prod.splits sum.splits)
qed

subsection \<open>The caller's series is left alone\<close>

text \<open>
  Claim C8.  \<^verbatim>\<open>transform_data_\<close> does not mutate the caller's series: whatever the
  configuration, the store and the address passed in, and whether the call returns or
  raises, every object that was in the store before the call is the same after it; in
  particular the frame at the address passed in has the same columns and values.
\<close>

theorem transform_data_no_mutation:
  "take (length h) (fst (transform_data_' self h data)) = h
   \<and> (data < length h \<longrightarrow> fst (transform_data_' self h data) ! data = h ! data)"
proof -
  define h1 where "h1 = h @ [h ! data]"
  define h2 where "h2 = fst (exec (length h) (transform_body self) h1)"
  have len: "length h2 = Suc (length h)"
    by (simp add: h2_def h1_def exec_length)
  have same: "h2 ! a = h ! a" if "a < length h" for a
    using that exec_other[of a "length h" "transform_body self" h1]
    by (simp add: h2_def h1_def nth_append)
  have pre: "take (length h) h2 = h"
    by (rule nth_equalityI) (simp_all add: len same)
  have "fst (transform_data_' self h data) = h2 \<or> (\<exists>f. fst (transform_data_' self h data) = h2 @ [f])"
    by (auto simp: transform_data_'_def copy_df_def h2_def h1_def split: prod.splits option.splits sum.splits)
  then show ?thesis
  proof
    assume "fst (transform_data_' self h data) = h2"
    then show ?thesis using pre same by simp
  next
    assume "\<exists>f. fst (transform_data_' self h data) = h2 @ [f]"
    then obtain f where "fst (transform_data_' self h data) = h2 @ [f]" ..
    then show ?thesis using pre same len by (simp add: nth_append)
  qed
qed

theorem transform_data_no_mutation_witness:
  "take (length [[(''ds'', DatetimeCol [Some 0]), (''y'', FloatCol [Some 1])]])
     (fst (transform_data_' default_chronos [[(''ds'', DatetimeCol [Some 0]), (''y'', FloatCol [Some 1])]] 0))
   = [[(''ds'', DatetimeCol [Some 0]), (''y'', FloatCol [Some 1])]]
   \<and> (0 :: nat) < length [[(''ds'', DatetimeCol [Some 0]), (''y'', FloatCol [Some 1])]]
   \<and> fst (transform_data_' default_chronos [[(''ds'', DatetimeCol [Some 0]), (''y'', FloatCol [Some 1])]] 0) ! 0
     = [(''ds'', DatetimeCol [Some 0]), (''y'', FloatCol [Some 1])]"
  using transform_data_no_mutation
    [of "[[(''ds'', DatetimeCol [Some 0]), (''y'', FloatCol [Some 1])]]" default_chronos 0]
  by simp

subsection \<open>The result of the feature builder\<close>

declare str_nat.simps [simp del]

lemma str_nat_nonempty: "str_nat n \<noteq> []"
  by (subst str_nat.simps) simp

lemma digit_char_inj:
  assumes "a < 10" "b < 10" "digit_char a = digit_char b"
  shows "a = b"
proof -
  have "distinct ''0123456789''" by simp
  then show ?thesis
    using assms nth_eq_iff_index_eq[of "''0123456789''" a b] by (simp add: digit_char_def)
qed

lemma str_nat_inj: "str_nat n = str_nat m \<Longrightarrow> n = m"
proof (induction n arbitrary: m rule: str_nat.induct)
  case (1 n)
  show ?case
  proof (cases "n < 10")
    case True
    show ?thesis
    proof (cases "m < 10")
      case m: True
      from "1.prems" True m have "digit_char n = digit_char m"
        by (simp add: str_nat.simps[of n] str_nat.simps[of m])
      then show ?thesis using True m digit_char_inj by blast
    next
      case False
      then have "length (str_nat m) \<ge> 2"
        using str_nat_nonempty[of "m div 10"]
        by (subst str_nat.simps) (cases "str_nat (m div 10)"; simp)
      moreover have "length (str_nat n) = 1" using True by (subst str_nat.simps) simp
      ultimately show ?thesis using "1.prems" by simp
    qed
  next
    case False
    show ?thesis
    proof (cases "m < 10")
      case True
      have "length (str_nat n) \<ge> 2"
        using False str_nat_nonempty[of "n div 10"]
        by (subst str_nat.simps) (cases "str_nat (n div 10)"; simp)
      moreover have "length (str_nat m) = 1" using True by (subst str_nat.simps) simp
      ultimately show ?thesis using "1.prems" by simp
    next
      case m: False
      from "1.prems" False m have e: "str_nat (n div 10) = str_nat (m div 10)"
        and d: "digit_char (n mod 10) = digit_char (m mod 10)"
        by (simp_all add: str_nat.simps[of n] str_nat.simps[of m])
      from "1.IH"[OF False e] have "n div 10 = m div 10" .
      moreover from d have "n mod 10 = m mod 10" by (intro digit_char_inj) simp_all
      ultimately show ?thesis by (metis div_mult_mod_eq)
    qed
  qed
qed

lemma str_int_inj: "0 \<le> i \<Longrightarrow> 0 \<le> j \<Longrightarrow> str_int i = str_int j \<Longrightarrow> i = j"
  using str_nat_inj[of "nat i" "nat j"] by (simp add: str_int_def)

lemma setitem_new: "name \<notin> set (columns f) \<Longrightarrow> setitem f name c = f @ [(name, c)]"
  by (induction f) (auto simp: columns_def)

lemma setitem_append_old:
  "name \<in> set (columns f) \<Longrightarrow> setitem (f @ g) name c = setitem f name c @ g"
  by (induction f) (auto simp: columns_def)

lemma columns_setitem_old: "name \<in> set (columns f) \<Longrightarrow> columns (setitem f name c) = columns f"
  by (induction f) (auto simp: columns_def)

lemma columns_append: "columns (f @ g) = columns f @ columns g"
  by (simp add: columns_def)

lemma map_of_in_columns: "map_of f name = Some c \<Longrightarrow> name \<in> set (columns f)"
  by (auto simp: columns_def dest: map_of_SomeD intro: rev_image_eqI)

lemma getitem_append_left: "map_of f name = Some c \<Longrightarrow> getitem (f @ g) name = Inr c"
  by (simp add: getitem_def)

lemma nrows_setitem_append:
  "map_of f name = Some c \<Longrightarrow> col_len c' = col_len c \<Longrightarrow> nrows (setitem f name c' @ g) = nrows f"
  by (cases f) (auto simp: nrows_def split: if_splits)

lemma columns_harmonic_columns: "columns (harmonic_columns tag period idx n) = harmonic_names tag n"
  by (simp add: harmonic_columns_def harmonic_names_def columns_def map_concat comp_def harmonic_pair_def)

lemma harmonic_names_iff:
  "name \<in> set (harmonic_names tag n) \<longleftrightarrow>
     (\<exists>i. 1 \<le> i \<and> i \<le> n \<and> (name = tag @ ''_sin_'' @ str_int i \<or> name = tag @ ''_cos_'' @ str_int i))"
  by (auto simp: harmonic_names_def)

lemma harmonic_columns_Suc:
  "harmonic_columns tag period idx (int (Suc k)) =
     harmonic_columns tag period idx (int k) @ harmonic_pair tag period idx (int k + 1)"
proof -
  have "[1..int (Suc k)] = [1..int k] @ [int k + 1]"
    using upto_rec2[of 1 "int (Suc k)"] by (simp add: add.commute)
  then show ?thesis by (simp add: harmonic_columns_def)
qed

lemma harmonic_names_Suc:
  "harmonic_names tag (int (Suc k)) =
     harmonic_names tag (int k)
     @ [tag @ ''_sin_'' @ str_int (int k + 1), tag @ ''_cos_'' @ str_int (int k + 1)]"
proof -
  have "[1..int (Suc k)] = [1..int k] @ [int k + 1]"
    using upto_rec2[of 1 "int (Suc k)"] by (simp add: add.commute)
  then show ?thesis by (simp add: harmonic_names_def)
qed

lemma seasonality_step_fresh:
  assumes "map_of f helper = Some (FloatCol idx)"
    and "tag @ ''_sin_'' @ str_int i \<notin> set (columns f)"
    and "tag @ ''_cos_'' @ str_int i \<notin> set (columns f)"
  shows "seasonality_step tag helper period i f = Inr (f @ harmonic_pair tag period idx i)"
proof -
  have g: "getitem f helper = Inr (FloatCol idx)"
    using assms(1) by (simp add: getitem_def)
  have ne: "tag @ ''_cos_'' @ str_int i \<noteq> tag @ ''_sin_'' @ str_int i" by simp
  have "tag @ ''_cos_'' @ str_int i \<notin> set (columns (f @ [(tag @ ''_sin_'' @ str_int i, c)]))" for c
    using assms(3) ne by (simp add: columns_def)
  then show ?thesis
    using assms(2)
    by (simp add: seasonality_step_def g map_float_def setitem_new harmonic_pair_def
        option.map_comp comp_def)
qed

lemma run_seasonality_nat:
  assumes "map_of f helper = Some (FloatCol idx)"
    and "\<forall>name \<in> set (harmonic_names tag (int k)). name \<notin> set (columns f)"
  shows "run (map (seasonality_step tag helper period) [1..int k]) f
         = Inr (f @ harmonic_columns tag period idx (int k))"
  using assms(2)
proof (induction k)
  case 0
  then show ?case by (simp add: harmonic_columns_def)
next
  case (Suc k)
  have up: "[1..int (Suc k)] = [1..int k] @ [int k + 1]"
    using upto_rec2[of 1 "int (Suc k)"] by (simp add: add.commute)
  have sub: "\<forall>name \<in> set (harmonic_names tag (int k)). name \<notin> set (columns f)"
    using Suc.prems[unfolded harmonic_names_Suc] by simp
  have pre: "run (map (seasonality_step tag helper period) [1..int k]) f
             = Inr (f @ harmonic_columns tag period idx (int k))"
    using Suc.IH[OF sub] .
  let ?g = "f @ harmonic_columns tag period idx (int k)"
  have m: "map_of ?g helper = Some (FloatCol idx)"
    using assms(1) by simp
  have fresh_f: "tag @ ''_sin_'' @ str_int (int k + 1) \<notin> set (columns f)"
      "tag @ ''_cos_'' @ str_int (int k + 1) \<notin> set (columns f)"
    using Suc.prems[unfolded harmonic_names_Suc] by simp_all
  have fresh_h: "tag @ ''_sin_'' @ str_int (int k + 1) \<notin> set (harmonic_names tag (int k))"
      "tag @ ''_cos_'' @ str_int (int k + 1) \<notin> set (harmonic_names tag (int k))"
    by (auto simp: harmonic_names_iff dest: str_int_inj[rotated 2])
  have "seasonality_step tag helper period (int k + 1) ?g
        = Inr (?g @ harmonic_pair tag period idx (int k + 1))"
    using fresh_f fresh_h
    by (intro seasonality_step_fresh[OF m]) (simp_all add: columns_append columns_harmonic_columns)
  then show ?case
    unfolding up harmonic_columns_Suc by (simp add: run_append pre)
qed

lemma run_seasonality:
  assumes "map_of f helper = Some (FloatCol idx)"
    and "\<forall>name \<in> set (harmonic_names tag n). name \<notin> set (columns f)"
  shows "run (map (seasonality_step tag helper period) [1..n]) f
         = Inr (f @ harmonic_columns tag period idx n)"
proof (cases "n < 1")
  case True
  then show ?thesis by (simp add: harmonic_columns_def)
next
  case False
  then have n: "n = int (nat n)" by simp
  show ?thesis
    using run_seasonality_nat[of f helper idx tag "nat n" period] assms n by simp
qed

lemma map_of_append_right: "name \<notin> set (columns f) \<Longrightarrow> map_of (f @ g) name = map_of g name"
  by (induction f) (auto simp: columns_def)

lemma map_of_append_left: "map_of f name = Some c \<Longrightarrow> map_of (f @ g) name = Some c"
  by simp

lemma harmonic_name_not_reserved:
  assumes "name \<in> set (harmonic_names tag n)"
    and "tag = ''yearly'' \<or> tag = ''monthly'' \<or> tag = ''weekly''"
  shows "name \<noteq> ''weekday''" "name \<noteq> ''monthday''" "name \<noteq> ''yearday''" "name \<noteq> ''CONST''"
  using assms by (auto simp: harmonic_names_iff)

lemma harmonic_names_disjoint:
  assumes "name \<in> set (harmonic_names tag n)" "name \<in> set (harmonic_names tag' n')"
    and "tag = ''yearly'' \<or> tag = ''monthly'' \<or> tag = ''weekly''"
    and "tag' = ''yearly'' \<or> tag' = ''monthly'' \<or> tag' = ''weekly''"
  shows "tag = tag'"
  using assms by (auto simp: harmonic_names_iff)

lemma filter_id_conv': "(\<forall>x \<in> set xs. P x) \<Longrightarrow> filter P xs = xs"
  by (induction xs) auto

lemma transform_frame_valid:
  assumes tc: "map_of data (time_col_' self) = Some (DatetimeCol ts)"
    and fresh: "list_all (\<lambda>n. n \<notin> set (columns data)) (helper_names @ generated_names self)"
  shows "transform_frame self data = Inr (transformed self data ts)"
proof -
  let ?tc = "time_col_' self"
  let ?Y = "year_seasonality_order_' self"
  let ?M = "month_seasonality_order_' self"
  let ?W = "weekly_seasonality_order_' self"
  let ?w = "(''weekday'', FloatCol (weekday_idx ts))"
  let ?m = "(''monthday'', FloatCol (monthday_idx ts))"
  let ?y = "(''yearday'', FloatCol (yearday_idx ts))"
  let ?T = "FloatCol (time_in_days ts)"
  let ?Hy = "harmonic_columns ''yearly'' 366 (yearday_idx ts) ?Y"
  let ?Hm = "harmonic_columns ''monthly'' 31 (monthday_idx ts) ?M"
  let ?Hw = "harmonic_columns ''weekly'' 7 (weekday_idx ts) ?W"
  let ?d = "setitem data ?tc ?T"
  have tcin: "?tc \<in> set (columns data)" using tc by (rule map_of_in_columns)
  have h: "''weekday'' \<notin> set (columns data)" "''monthday'' \<notin> set (columns data)"
      "''yearday'' \<notin> set (columns data)" "''CONST'' \<notin> set (columns data)"
    using fresh by (simp_all add: helper_names_def generated_names_def)
  have gy: "\<forall>name \<in> set (harmonic_names ''yearly'' ?Y). name \<notin> set (columns data)"
    and gm: "\<forall>name \<in> set (harmonic_names ''monthly'' ?M). name \<notin> set (columns data)"
    and gw: "\<forall>name \<in> set (harmonic_names ''weekly'' ?W). name \<notin> set (columns data)"
    using fresh by (simp_all add: generated_names_def list_all_iff)
  have cd: "columns ?d = columns data" using tcin by (rule columns_setitem_old)
  have s1: "set_weekday ?tc data = Inr (data @ [?w])"
    using tc h by (simp add: set_weekday_def getitem_def dt_field_def setitem_new weekday_idx_def)
  have s2: "set_day_index ?tc ''monthday'' day (data @ [?w]) = Inr (data @ [?w, ?m])"
    using tc h
    by (simp add: set_day_index_def getitem_def dt_field_def map_float_def setitem_new
        monthday_idx_def columns_def option.map_comp comp_def)
  have s3: "set_day_index ?tc ''yearday'' dayofyear (data @ [?w, ?m]) = Inr (data @ [?w, ?m, ?y])"
    using tc h
    by (simp add: set_day_index_def getitem_def dt_field_def map_float_def setitem_new
        yearday_idx_def columns_def option.map_comp comp_def)
  have s4: "set_time_in_days ?tc (data @ [?w, ?m, ?y]) = Inr (?d @ [?w, ?m, ?y])"
    using tc tcin
    by (simp add: set_time_in_days_def getitem_def values_astype_float_def map_float_def
        setitem_append_old time_in_days_def comp_def)
  let ?f4 = "?d @ [?w, ?m, ?y]"
  have c4: "columns ?f4 = columns data @ helper_names"
    by (simp add: columns_append cd helper_names_def) (simp add: columns_def)
  have m4: "map_of ?f4 k = map_of [?w, ?m, ?y] k" if "k \<notin> set (columns data)" for k
    using map_of_append_right[of k ?d "[?w, ?m, ?y]"] that cd by simp
  have my: "map_of ?f4 ''yearday'' = Some (FloatCol (yearday_idx ts))"
    using m4[OF h(3)] by simp
  have mm: "map_of ?f4 ''monthday'' = Some (FloatCol (monthday_idx ts))"
    using m4[OF h(2)] by simp
  have mw: "map_of ?f4 ''weekday'' = Some (FloatCol (weekday_idx ts))"
    using m4[OF h(1)] by simp
  have ch: "columns [?w, ?m, ?y] = helper_names"
    by (simp add: columns_def helper_names_def)
  have c5: "columns (?f4 @ ?Hy) = columns data @ helper_names @ harmonic_names ''yearly'' ?Y"
    by (simp only: columns_append cd ch columns_harmonic_columns append_assoc)
  have c6: "columns ((?f4 @ ?Hy) @ ?Hm) = columns data @ helper_names
              @ harmonic_names ''yearly'' ?Y @ harmonic_names ''monthly'' ?M"
    by (simp only: columns_append cd ch columns_harmonic_columns append_assoc)
  have ly: "run (map (seasonality_step ''yearly'' ''yearday'' 366) [1..?Y]) ?f4 = Inr (?f4 @ ?Hy)"
  proof (rule run_seasonality[OF my])
    show "\<forall>name \<in> set (harmonic_names ''yearly'' ?Y). name \<notin> set (columns ?f4)"
      unfolding c4
      using gy harmonic_name_not_reserved[of _ "''yearly''" ?Y]
      by (auto simp: helper_names_def)
  qed
  have lm: "run (map (seasonality_step ''monthly'' ''monthday'' 31) [1..?M]) (?f4 @ ?Hy)
            = Inr ((?f4 @ ?Hy) @ ?Hm)"
  proof (rule run_seasonality)
    show "map_of (?f4 @ ?Hy) ''monthday'' = Some (FloatCol (monthday_idx ts))"
      by (rule map_of_append_left[OF mm])
    show "\<forall>name \<in> set (harmonic_names ''monthly'' ?M). name \<notin> set (columns (?f4 @ ?Hy))"
      unfolding c5
      using gm harmonic_name_not_reserved[of _ "''monthly''" ?M]
        harmonic_names_disjoint[of _ "''monthly''" ?M "''yearly''" ?Y]
      by (auto simp: helper_names_def)
  qed
  have lw: "run (map (seasonality_step ''weekly'' ''weekday'' 7) [1..?W]) ((?f4 @ ?Hy) @ ?Hm)
            = Inr (((?f4 @ ?Hy) @ ?Hm) @ ?Hw)"
  proof (rule run_seasonality)
    show "map_of ((?f4 @ ?Hy) @ ?Hm) ''weekday'' = Some (FloatCol (weekday_idx ts))"
      by (rule map_of_append_left[OF map_of_append_left[OF mw]])
    show "\<forall>name \<in> set (harmonic_names ''weekly'' ?W). name \<notin> set (columns ((?f4 @ ?Hy) @ ?Hm))"
      unfolding c6
      using gw harmonic_name_not_reserved[of _ "''weekly''" ?W]
        harmonic_names_disjoint[of _ "''weekly''" ?W "''yearly''" ?Y]
        harmonic_names_disjoint[of _ "''weekly''" ?W "''monthly''" ?M]
      by (auto simp: helper_names_def)
  qed
  let ?f7 = "((?f4 @ ?Hy) @ ?Hm) @ ?Hw"
  have c7: "columns ?f7 = columns data @ helper_names @ harmonic_names ''yearly'' ?Y
              @ harmonic_names ''monthly'' ?M @ harmonic_names ''weekly'' ?W"
    by (simp only: columns_append cd ch columns_harmonic_columns append_assoc)
  have nc: "''CONST'' \<notin> set (columns ?f7)"
    unfolding c7
    using h harmonic_name_not_reserved(4)[of "''CONST''"]
    by (auto simp: helper_names_def)
  have nr: "nrows ?f7 = nrows data"
    using nrows_setitem_append[OF tc, of ?T] by (simp add: time_in_days_def)
  have ins: "insert_df ?f7 0 ''CONST'' 1 = Inr ((''CONST'', FloatCol (replicate (nrows data) (Some 1))) # ?f7)"
    using nc by (simp add: insert_df_def nr del: append_assoc)
  have body: "run (transform_body self) data
              = Inr ((''CONST'', FloatCol (replicate (nrows data) (Some 1))) # ?f7)"
    by (simp only: transform_body_def run_append run.simps s1 s2 s3 s4 ly lm lw ins
        bindE_Inr append.simps)
  have keep_d: "filter (\<lambda>p. fst p \<notin> set [''weekday'', ''monthday'', ''yearday'']) ?d = ?d"
  proof (rule filter_id_conv')
    have "fst x \<in> set (columns data)" if "x \<in> set ?d" for x
    proof -
      from that have "fst x \<in> set (columns ?d)" by (simp add: columns_def)
      then show ?thesis by (simp only: cd)
    qed
    then show "\<forall>x \<in> set ?d. fst x \<notin> set [''weekday'', ''monthday'', ''yearday'']"
      using h by auto
  qed
  have keep_h: "filter (\<lambda>p. fst p \<notin> set [''weekday'', ''monthday'', ''yearday''])
                  (harmonic_columns tag period idx n) = harmonic_columns tag period idx n"
    if "tag = ''yearly'' \<or> tag = ''monthly'' \<or> tag = ''weekly''" for tag period idx n
  proof (rule filter_id_conv')
    have "\<forall>name \<in> set (columns (harmonic_columns tag period idx n)).
            name \<notin> set [''weekday'', ''monthday'', ''yearday'']"
      using harmonic_name_not_reserved[of _ tag n] that
      by (auto simp: columns_harmonic_columns)
    then show "\<forall>x \<in> set (harmonic_columns tag period idx n).
                 fst x \<notin> set [''weekday'', ''monthday'', ''yearday'']"
      by (auto simp: columns_def)
  qed
  have all_in: "list_all (\<lambda>l. l \<in> set (columns ((''CONST'', c) # ?f7)))
                  [''weekday'', ''monthday'', ''yearday'']" for c
    by (simp add: columns_def)
  have "drop_df ((''CONST'', FloatCol (replicate (nrows data) (Some 1))) # ?f7)
          [''weekday'', ''monthday'', ''yearday''] = Inr (transformed self data ts)"
    unfolding drop_df_def transformed_def
    using keep_d keep_h[of "''yearly''"] keep_h[of "''monthly''"] keep_h[of "''weekly''"]
    by (simp add: columns_def)
  then show ?thesis
    by (simp add: transform_frame_run body)
qed

lemma length_harmonic_names: "length (harmonic_names tag n) = 2 * nat n"
proof (cases "n < 1")
  case True
  then show ?thesis by (simp add: harmonic_names_def)
next
  case False
  have "length (harmonic_names tag (int k)) = 2 * k" for k
    by (induction k) (simp add: harmonic_names_def, simp only: harmonic_names_Suc, simp)
  from this[of "nat n"] False show ?thesis by simp
qed

lemma sincos_ok_map:
  assumes "\<And>u. - 1 \<le> k u \<and> k u \<le> 1"
  shows "sincos_ok ts (FloatCol (map (map_option k) ts))"
  using assms by (simp add: sincos_ok_def list_all2_map2 list_all2_same split: option.splits)

lemma harmonic_columns_ok:
  assumes "idx = map (map_option h) ts"
  shows "list_all (\<lambda>p. sincos_ok ts (snd p) \<and> col_len (snd p) = length ts)
           (harmonic_columns tag period idx n)"
proof -
  have s: "sincos_ok ts (FloatCol (map (map_option (\<lambda>x. sin (g x))) (map (map_option h) ts)))" for g
    using sincos_ok_map[of "\<lambda>u. sin (g (h u))" ts] by (simp add: option.map_comp comp_def)
  have c: "sincos_ok ts (FloatCol (map (map_option (\<lambda>x. cos (g x))) (map (map_option h) ts)))" for g
    using sincos_ok_map[of "\<lambda>u. cos (g (h u))" ts] by (simp add: option.map_comp comp_def)
  show ?thesis
    unfolding harmonic_columns_def harmonic_pair_def list_all_iff assms
    using s c by auto
qed

lemma columns_Cons: "columns (p # f) = fst p # columns f"
  by (simp add: columns_def)

lemma columns_transformed:
  "map_of data (time_col_' self) = Some (DatetimeCol ts) \<Longrightarrow>
   columns (transformed self data ts) = ''CONST'' # columns data @ sincos_names self"
  by (simp add: transformed_def columns_append columns_harmonic_columns sincos_names_def
      columns_setitem_old map_of_in_columns columns_Cons)

lemma valid_series_time:
  "valid_series self data \<Longrightarrow>
   map_of data (time_col_' self) = Some (DatetimeCol (time_values self data))"
  by (auto simp: valid_series_def time_values_def split: option.splits column.splits)

lemma valid_series_fresh:
  "valid_series self data \<Longrightarrow>
   list_all (\<lambda>n. n \<notin> set (columns data)) (helper_names @ generated_names self)"
  by (simp add: valid_series_def)

lemma transform_frame_valid_series:
  "valid_series self data \<Longrightarrow>
   transform_frame self data = Inr (transformed self data (time_values self data))"
  by (rule transform_frame_valid[OF valid_series_time valid_series_fresh])

lemma sincos_names_generated: "generated_names self = ''CONST'' # sincos_names self"
  by (simp add: generated_names_def sincos_names_def)

lemma const_not_sincos: "''CONST'' \<notin> set (sincos_names self)"
  using harmonic_name_not_reserved(4)[of "''CONST''"]
  by (auto simp: sincos_names_def)

lemma length_filter_remove1:
  "distinct xs \<Longrightarrow> t \<in> set xs \<Longrightarrow> Suc (length (filter (\<lambda>n. n \<noteq> t) xs)) = length xs"
proof (induction xs)
  case Nil
  then show ?case by simp
next
  case (Cons x xs)
  show ?case
  proof (cases "x = t")
    case True
    then have "t \<notin> set xs" using Cons.prems(1) by simp
    then have "filter (\<lambda>n. n \<noteq> t) xs = xs" by (induction xs) auto
    then show ?thesis using True by simp
  next
    case False
    then show ?thesis using Cons by simp
  qed
qed

lemma list_all_col_len_setitem:
  "list_all (\<lambda>p. col_len (snd p) = n) f \<Longrightarrow> col_len c = n \<Longrightarrow>
   list_all (\<lambda>p. col_len (snd p) = n) (setitem f name c)"
  by (induction f) auto

lemma wf_frame_time_len:
  assumes "wf_frame data" "map_of data name = Some c"
  shows "col_len c = nrows data"
proof -
  from assms(2) have "(name, c) \<in> set data" by (rule map_of_SomeD)
  with assms(1) show ?thesis by (auto simp: wf_frame_def list_all_iff)
qed

lemma feature_columns_valid:
  assumes valid: "valid_series self data"
    and tg: "target_col_' self \<in> set (columns data)"
  shows "feature_columns self data
         = Inr (filter (\<lambda>n. n \<noteq> target_col_' self) (''CONST'' # columns data @ sincos_names self))"
proof -
  let ?out = "transformed self data (time_values self data)"
  let ?t = "target_col_' self"
  have cols: "columns ?out = ''CONST'' # columns data @ sincos_names self"
    by (rule columns_transformed[OF valid_series_time[OF valid]])
  have t_in: "?t \<in> set (columns ?out)" using tg by (simp add: cols)
  have d: "drop_df ?out [?t] = Inr (filter (\<lambda>p. fst p \<noteq> ?t) ?out)"
    using t_in by (simp add: drop_df_def)
  have cf: "columns (filter (\<lambda>p. fst p \<noteq> ?t) ?out) = filter (\<lambda>n. n \<noteq> ?t) (columns ?out)"
    by (simp add: columns_def filter_map comp_def)
  show ?thesis
    by (simp add: feature_columns_def transform_frame_valid_series[OF valid] d cf cols)
qed

text \<open>
  Claim C1, as amended.  For a series whose time column is a datetime column and whose
  own column names are none of the names the builder uses, with non-negative orders
  \<open>Y\<close>, \<open>M\<close>, \<open>W\<close>: the output consists of \<^verbatim>\<open>CONST\<close>, then the input's own columns (the
  time column in days, the target and any others), then the \<open>2 (Y + M + W)\<close> sine and
  cosine columns.  The builder thus adds \<open>1 + 2 (Y + M + W)\<close> columns to those of the
  input, and the features \<^verbatim>\<open>fit\<close> trains on (all columns but the target) number
  \<open>2 (Y + M + W)\<close> more than the input's columns, which is \<open>2 + 2 (Y + M + W)\<close> for a
  series of a time and a target column.  Every sine and cosine value lies in \<open>[-1, 1]\<close>
  at a row with a timestamp and is NaN at a row whose timestamp is NaT; the output has as
  many rows as the input.
\<close>

theorem feature_builder_shape:
  assumes valid: "valid_series self data"
    and wf: "wf_frame data"
    and orders: "0 \<le> year_seasonality_order_' self" "0 \<le> month_seasonality_order_' self"
      "0 \<le> weekly_seasonality_order_' self"
  shows "\<exists>out. transform_frame self data = Inr out
     \<and> columns out = ''CONST'' # columns data @ sincos_names self
     \<and> length (sincos_names self)
         = 2 * nat (year_seasonality_order_' self + month_seasonality_order_' self
                    + weekly_seasonality_order_' self)
     \<and> length (columns out)
         = length (columns data) + 1
           + 2 * nat (year_seasonality_order_' self + month_seasonality_order_' self
                      + weekly_seasonality_order_' self)
     \<and> list_all (\<lambda>p. sincos_ok (time_values self data) (snd p)) (drop (Suc (length data)) out)
     \<and> nrows out = nrows data
     \<and> list_all (\<lambda>p. col_len (snd p) = nrows data) out
     \<and> (target_col_' self \<in> set (columns data) \<longrightarrow>
          (\<exists>names. feature_columns self data = Inr names
             \<and> length names
                 = length (columns data)
                   + 2 * nat (year_seasonality_order_' self + month_seasonality_order_' self
                              + weekly_seasonality_order_' self)))"
proof -
  let ?ts = "time_values self data"
  let ?out = "transformed self data ?ts"
  let ?n = "nat (year_seasonality_order_' self + month_seasonality_order_' self
                 + weekly_seasonality_order_' self)"
  note tc = valid_series_time[OF valid]
  note fresh = valid_series_fresh[OF valid]
  have t: "transform_frame self data = Inr ?out"
    by (rule transform_frame_valid_series[OF valid])
  have cols: "columns ?out = ''CONST'' # columns data @ sincos_names self"
    by (rule columns_transformed[OF tc])
  have len_sc: "length (sincos_names self) = 2 * ?n"
    using orders by (simp add: sincos_names_def length_harmonic_names nat_add_distrib)
  have len: "length (columns ?out) = length (columns data) + 1 + 2 * ?n"
    by (simp add: cols len_sc)
  have len_d: "length (setitem data (time_col_' self) (FloatCol (time_in_days ?ts))) = length data"
    using columns_setitem_old[OF map_of_in_columns[OF tc], of "FloatCol (time_in_days ?ts)"]
    by (simp add: columns_def) (metis length_map)
  have tail: "drop (Suc (length data)) ?out
              = harmonic_columns ''yearly'' 366 (yearday_idx ?ts) (year_seasonality_order_' self)
                @ harmonic_columns ''monthly'' 31 (monthday_idx ?ts) (month_seasonality_order_' self)
                @ harmonic_columns ''weekly'' 7 (weekday_idx ?ts) (weekly_seasonality_order_' self)"
    using len_d by (simp add: transformed_def)
  have hy: "list_all (\<lambda>p. sincos_ok ?ts (snd p) \<and> col_len (snd p) = length ?ts)
              (harmonic_columns ''yearly'' 366 (yearday_idx ?ts) (year_seasonality_order_' self))"
    by (rule harmonic_columns_ok) (rule yearday_idx_def)
  have hm: "list_all (\<lambda>p. sincos_ok ?ts (snd p) \<and> col_len (snd p) = length ?ts)
              (harmonic_columns ''monthly'' 31 (monthday_idx ?ts) (month_seasonality_order_' self))"
    by (rule harmonic_columns_ok) (rule monthday_idx_def)
  have hw: "list_all (\<lambda>p. sincos_ok ?ts (snd p) \<and> col_len (snd p) = length ?ts)
              (harmonic_columns ''weekly'' 7 (weekday_idx ?ts) (weekly_seasonality_order_' self))"
    by (rule harmonic_columns_ok) (rule weekday_idx_def)
  have ok: "list_all (\<lambda>p. sincos_ok ?ts (snd p)) (drop (Suc (length data)) ?out)"
    using hy hm hw by (auto simp: tail list_all_iff)
  have rows: "nrows ?out = nrows data"
    by (simp add: transformed_def nrows_def)
  have lt: "length ?ts = nrows data"
    using wf_frame_time_len[OF wf tc] by simp
  have all_d: "list_all (\<lambda>p. col_len (snd p) = nrows data)
                 (setitem data (time_col_' self) (FloatCol (time_in_days ?ts)))"
    using wf lt by (intro list_all_col_len_setitem) (simp_all add: wf_frame_def time_in_days_def)
  have all_len: "list_all (\<lambda>p. col_len (snd p) = nrows data) ?out"
    using hy hm hw all_d lt by (auto simp: transformed_def list_all_iff)
  have feat: "\<exists>names. feature_columns self data = Inr names
                \<and> length names = length (columns data) + 2 * ?n"
    if tg: "target_col_' self \<in> set (columns data)"
  proof -
    let ?t = "target_col_' self"
    have t_gen: "?t \<notin> set (generated_names self)"
      using fresh tg by (auto simp: list_all_iff)
    then have t_ne: "?t \<noteq> ''CONST''" and t_sc: "?t \<notin> set (sincos_names self)"
      by (simp_all add: sincos_names_generated)
    have keep: "filter (\<lambda>n. n \<noteq> ?t) (sincos_names self) = sincos_names self"
      using t_sc by (intro filter_id_conv') auto
    have "Suc (length (filter (\<lambda>n. n \<noteq> ?t) (columns data))) = length (columns data)"
      using wf tg by (intro length_filter_remove1) (simp_all add: wf_frame_def)
    then have "length (filter (\<lambda>n. n \<noteq> ?t) (columns ?out)) = length (columns data) + 2 * ?n"
      using t_ne by (simp add: cols keep len_sc)
    then show ?thesis
      by (simp add: feature_columns_valid[OF valid tg] cols)
  qed
  show ?thesis
    using t cols len_sc len ok rows all_len feat by blast
qed

lemma example_names:
  "generated_names example_model =
     [''CONST'', ''yearly_sin_1'', ''yearly_cos_1'', ''monthly_sin_1'', ''monthly_cos_1'',
      ''weekly_sin_1'', ''weekly_cos_1'']"
  by (simp add: generated_names_def harmonic_names_def example_model_def init_def upto.simps
      str_int_def str_nat.simps digit_char_def)

lemma example_valid: "valid_series example_model example_series"
  unfolding valid_series_def example_names
  by (simp add: example_series_def example_model_def init_def helper_names_def columns_def)

lemma example_wf: "wf_frame example_series"
  by (simp add: wf_frame_def example_series_def columns_def nrows_def)

theorem feature_count_counterexample:
  "feature_columns example_model example_series
     = Inr [''CONST'', ''ds'', ''yearly_sin_1'', ''yearly_cos_1'', ''monthly_sin_1'',
            ''monthly_cos_1'', ''weekly_sin_1'', ''weekly_cos_1'']
   \<and> length [''CONST'', ''ds'', ''yearly_sin_1'', ''yearly_cos_1'', ''monthly_sin_1'',
              ''monthly_cos_1'', ''weekly_sin_1'', ''weekly_cos_1'']
     \<noteq> 1 + 2 * nat (year_seasonality_order_' example_model
                      + month_seasonality_order_' example_model
                      + weekly_seasonality_order_' example_model)"
proof -
  have sc: "sincos_names example_model
            = [''yearly_sin_1'', ''yearly_cos_1'', ''monthly_sin_1'', ''monthly_cos_1'',
               ''weekly_sin_1'', ''weekly_cos_1'']"
    using example_names by (simp add: sincos_names_generated)
  have t: "target_col_' example_model \<in> set (columns example_series)"
    by (simp add: example_model_def init_def example_series_def columns_def)
  show ?thesis
    unfolding feature_columns_valid[OF example_valid t] sc
    by (simp add: example_series_def columns_def example_model_def init_def)
qed

theorem feature_builder_shape_witness:
  "valid_series example_model example_series \<and> wf_frame example_series
   \<and> 0 \<le> year_seasonality_order_' example_model
   \<and> 0 \<le> month_seasonality_order_' example_model
   \<and> 0 \<le> weekly_seasonality_order_' example_model
   \<and> target_col_' example_model \<in> set (columns example_series)
   \<and> (\<exists>out. transform_frame example_model example_series = Inr out
        \<and> length (columns out) = 9 \<and> nrows out = 2)
   \<and> (\<exists>names. feature_columns example_model example_series = Inr names \<and> length names = 8)"
proof -
  have o: "0 \<le> year_seasonality_order_' example_model"
      "0 \<le> month_seasonality_order_' example_model"
      "0 \<le> weekly_seasonality_order_' example_model"
    by (simp_all add: example_model_def init_def)
  have t: "target_col_' example_model \<in> set (columns example_series)"
    by (simp add: example_model_def init_def example_series_def columns_def)
  have v: "year_seasonality_order_' example_model = 1"
      "month_seasonality_order_' example_model = 1"
      "weekly_seasonality_order_' example_model = 1"
      "length (columns example_series) = 2" "nrows example_series = 2"
    by (simp_all add: example_model_def init_def example_series_def columns_def nrows_def)
  from feature_builder_shape[OF example_valid example_wf o] t
  show ?thesis
    using example_valid example_wf o by (auto simp: v)
qed

subsection \<open>Column order and repeated calls\<close>

lemma str_int_1: "str_int 1 = ''1''"
  by (simp add: str_int_def str_nat.simps digit_char_def)

theorem column_order_counterexample:
  "transform_columns clash_model clash_series
   = Inr [''CONST'', ''ds'', ''y'', ''weekly_sin_1'', ''yearly_sin_1'', ''yearly_cos_1'',
          ''weekly_cos_1'']"
  by (simp add: transform_columns_def transform_frame_run transform_body_def clash_model_def
      init_def clash_series_def upto.simps set_weekday_def set_day_index_def set_time_in_days_def
      seasonality_step_def getitem_def dt_field_def map_float_def values_astype_float_def
      insert_df_def drop_df_def columns_def str_int_1)

lemma transform_data_ok:
  assumes "a < length h" "transform_frame self (h ! a) = Inr f"
  shows "\<exists>g. transform_data_' self h a = (h @ [g, f], Inr (Suc (length h)))"
proof -
  from assms(2) obtain g where r: "run (transform_body self) (h ! a) = Inr g"
    and d: "drop_df g [''weekday'', ''monthday'', ''yearday''] = Inr f"
    by (auto simp: transform_frame_run bindE_eq_Inr)
  have "exec (length h) (transform_body self) (h @ [h ! a]) = ((h @ [h ! a])[length h := g], None)"
    by (rule exec_run_ok) (simp_all add: r)
  then have "exec (length h) (transform_body self) (h @ [h ! a]) = (h @ [g], None)"
    by simp
  then have "transform_data_' self h a = (h @ [g, f], Inr (Suc (length h)))"
    using d by (simp add: transform_data_'_def copy_df_def)
  then show ?thesis ..
qed

lemma transform_data_err:
  assumes "a < length h" "transform_frame self (h ! a) = Inl e"
  shows "\<exists>g. transform_data_' self h a = (h @ [g], Inl e)"
proof (cases "run (transform_body self) (h ! a)")
  case (Inl e')
  then have e': "e' = e" using assms(2) by (simp add: transform_frame_run)
  let ?x = "exec (length h) (transform_body self) (h @ [h ! a])"
  have s: "snd ?x = Some e"
    using exec_run_err[of "length h" "h @ [h ! a]" "transform_body self" e] Inl e' by simp
  have l: "length (fst ?x) = Suc (length h)" by (simp add: exec_length)
  have "fst ?x ! i = h ! i" if "i < length h" for i
    using exec_other[of i "length h" "transform_body self" "h @ [h ! a]"] that
    by (simp add: nth_append)
  then have "take (length h) (fst ?x) = h"
    using l by (intro nth_equalityI) simp_all
  then have "\<exists>g. fst ?x = h @ [g]"
    using l by (metis append_eq_conv_conj length_Suc_conv_rev)
  then obtain g where "fst ?x = h @ [g]" ..
  then have "?x = (h @ [g], Some e)" using s by (metis prod.collapse)
  then have "transform_data_' self h a = (h @ [g], Inl e)"
    by (simp add: transform_data_'_def copy_df_def)
  then show ?thesis ..
next
  case (Inr g)
  then have d: "drop_df g [''weekday'', ''monthday'', ''yearday''] = Inl e"
    using assms(2) by (simp add: transform_frame_run)
  have "exec (length h) (transform_body self) (h @ [h ! a]) = ((h @ [h ! a])[length h := g], None)"
    by (rule exec_run_ok) (simp_all add: Inr)
  then have "exec (length h) (transform_body self) (h @ [h ! a]) = (h @ [g], None)"
    by simp
  then have "transform_data_' self h a = (h @ [g], Inl e)"
    using d by (simp add: transform_data_'_def copy_df_def)
  then show ?thesis ..
qed

lemma concat_pairs_nth:
  "k < length xs \<Longrightarrow>
   concat (map (\<lambda>i. [f i, g i]) xs) ! (2 * k) = f (xs ! k)
   \<and> concat (map (\<lambda>i. [f i, g i]) xs) ! (2 * k + 1) = g (xs ! k)"
proof (induction xs arbitrary: k)
  case Nil
  then show ?case by simp
next
  case (Cons x xs)
  show ?case
  proof (cases k)
    case 0
    then show ?thesis by simp
  next
    case (Suc j)
    then have "j < length xs" using Cons.prems by simp
    from Cons.IH[OF this] show ?thesis using Suc by simp
  qed
qed

lemma harmonic_names_nth:
  assumes "k < nat n"
  shows "harmonic_names tag n ! (2 * k) = tag @ ''_sin_'' @ str_int (int k + 1)
         \<and> harmonic_names tag n ! (2 * k + 1) = tag @ ''_cos_'' @ str_int (int k + 1)"
proof -
  have l: "k < length [1..n]" using assms by simp
  have n: "[1..n] ! k = int k + 1" using assms by (simp add: nth_upto)
  show ?thesis
    unfolding harmonic_names_def
    using concat_pairs_nth[OF l, of "\<lambda>i. tag @ ''_sin_'' @ str_int i" "\<lambda>i. tag @ ''_cos_'' @ str_int i"]
    by (simp only: n)
qed

lemma call_twice_same:
  assumes "a < length h"
  shows "fst (call_twice self h a) = snd (call_twice self h a)"
proof (cases "transform_frame self (h ! a)")
  case (Inl e)
  from transform_data_err[OF assms Inl] obtain g
    where 1: "transform_data_' self h a = (h @ [g], Inl e)" ..
  have "transform_frame self ((h @ [g]) ! a) = Inl e"
    using Inl assms by (simp add: nth_append)
  from transform_data_err[OF _ this] assms obtain g'
    where 2: "transform_data_' self (h @ [g]) a = ((h @ [g]) @ [g'], Inl e)" by auto
  show ?thesis by (simp add: call_twice_def 1 2)
next
  case (Inr f)
  from transform_data_ok[OF assms Inr] obtain g
    where 1: "transform_data_' self h a = (h @ [g, f], Inr (Suc (length h)))" ..
  have "transform_frame self ((h @ [g, f]) ! a) = Inr f"
    using Inr assms by (simp add: nth_append)
  from transform_data_ok[OF _ this] assms obtain g'
    where 2: "transform_data_' self (h @ [g, f]) a
              = ((h @ [g, f]) @ [g', f], Inr (Suc (length (h @ [g, f]))))" by auto
  show ?thesis by (simp add: call_twice_def 1 2 nth_append)
qed

text \<open>
  Claim C6, as amended.  For a series whose time column is a datetime column and whose
  own column names are none of the names the builder uses, the columns of the output are,
  in this order: \<^verbatim>\<open>CONST\<close>, the input's own columns in their order, the yearly pairs, the
  monthly pairs, the weekly pairs; within a frequency the pair of order \<open>k + 1\<close> stands at
  positions \<open>2 k\<close> and \<open>2 k + 1\<close>, sine before cosine.  Two calls in a row on the same
  series, whatever it is, end alike: with equal frames, or with the same exception.
\<close>

theorem feature_builder_order:
  assumes "valid_series self data"
  shows "transform_columns self data
         = Inr (''CONST'' # columns data
                @ harmonic_names ''yearly'' (year_seasonality_order_' self)
                @ harmonic_names ''monthly'' (month_seasonality_order_' self)
                @ harmonic_names ''weekly'' (weekly_seasonality_order_' self))
     \<and> (\<forall>tag n k. k < nat n \<longrightarrow>
            harmonic_names tag n ! (2 * k) = tag @ ''_sin_'' @ str_int (int k + 1)
          \<and> harmonic_names tag n ! (2 * k + 1) = tag @ ''_cos_'' @ str_int (int k + 1))
     \<and> (\<forall>h a. a < length h \<longrightarrow> fst (call_twice self h a) = snd (call_twice self h a))"
proof -
  have "transform_columns self data = Inr (''CONST'' # columns data @ sincos_names self)"
    using columns_transformed[OF valid_series_time[OF assms]]
    by (simp add: transform_columns_def transform_frame_valid_series[OF assms])
  then show ?thesis
    using harmonic_names_nth call_twice_same by (simp add: sincos_names_def)
qed

theorem feature_builder_order_witness:
  "valid_series example_model example_series
   \<and> transform_columns example_model example_series
     = Inr [''CONST'', ''ds'', ''y'', ''yearly_sin_1'', ''yearly_cos_1'', ''monthly_sin_1'',
            ''monthly_cos_1'', ''weekly_sin_1'', ''weekly_cos_1'']
   \<and> (0 :: nat) < nat 1
   \<and> harmonic_names ''weekly'' 1 ! (2 * 0) = ''weekly'' @ ''_sin_'' @ str_int (int 0 + 1)
   \<and> (0 :: nat) < length [example_series]
   \<and> fst (call_twice example_model [example_series] 0)
     = snd (call_twice example_model [example_series] 0)"
proof -
  have g: "harmonic_names ''yearly'' 1 = [''yearly_sin_1'', ''yearly_cos_1'']"
      "harmonic_names ''monthly'' 1 = [''monthly_sin_1'', ''monthly_cos_1'']"
      "harmonic_names ''weekly'' 1 = [''weekly_sin_1'', ''weekly_cos_1'']"
    by (simp_all add: harmonic_names_def upto.simps str_int_1)
  have c: "columns example_series = [''ds'', ''y'']"
    by (simp add: example_series_def columns_def)
  have o: "year_seasonality_order_' example_model = 1"
      "month_seasonality_order_' example_model = 1"
      "weekly_seasonality_order_' example_model = 1"
    by (simp_all add: example_model_def init_def)
  from feature_builder_order[OF example_valid] show ?thesis
    using example_valid by (simp add: g c o str_int_1)
qed

subsection \<open>The dispatch on the method\<close>

lemma getattr_method: "getattr_str self ''method'' = Inl AttributeError"
  by (simp add: getattr_str_def)

lemma fit_dispatch_unsupported:
  assumes "method_' (obj st) \<noteq> ''MLE''" "method_' (obj st) \<noteq> ''MAP''"
  shows "fit_dispatch svi st X y = (st, Inl AttributeError)"
  using assms by (simp add: fit_dispatch_def getattr_method)

lemma transform_frame_history [simp]:
  "transform_frame (self\<lparr>history := x\<rparr>) data = transform_frame self data"
  by (simp add: transform_frame_def transform_data_'_def transform_body_def)

lemma fit_preprocess:
  "fit svi st data =
     (case preprocess (obj st) data of
        Inl e \<Rightarrow> (with_history st data, Inl e)
      | Inr (y, f, X) \<Rightarrow> fit_dispatch svi (with_X_names (with_history st data) (columns f)) X y)"
proof (cases "transform_frame (obj st) data")
  case (Inl e)
  then show ?thesis by (simp add: fit_def preprocess_def with_history_def)
next
  case t: (Inr internal)
  show ?thesis
  proof (cases "bindE (getitem internal (target_col_' (obj st))) to_tensor")
    case (Inl e)
    then show ?thesis using t by (simp add: fit_def preprocess_def with_history_def)
  next
    case y: (Inr y)
    show ?thesis
    proof (cases "drop_df internal [target_col_' (obj st)]")
      case (Inl e)
      then show ?thesis using t y by (simp add: fit_def preprocess_def with_history_def)
    next
      case f: (Inr f)
      show ?thesis
        using t y f
        by (cases "values_tensor f")
          (simp_all add: fit_def preprocess_def with_history_def with_X_names_def)
    qed
  qed
qed

lemma predict_preprocess:
  "predict pred st data n ci =
     bindE (preprocess (obj st) data) (\<lambda>(y, f, X).
       if method_' (obj st) \<in> set [''MAP'', ''MLE''] then
         bindE (getattr_opt (model (obj st))) (\<lambda>m.
         bindE (getattr_opt (guide (obj st))) (\<lambda>g.
         bindE (pred m g (params st) X n) (\<lambda>draws.
         bindE (lower_rank n ci) (\<lambda>lower_ntile.
         bindE (upper_rank n ci) (\<lambda>upper_ntile.
         bindE (kthvalue_dim0 draws n (nrows f) lower_ntile) (\<lambda>yhat_lower.
         bindE (kthvalue_dim0 draws n (nrows f) upper_ntile) (\<lambda>yhat_upper.
         bindE (getitem data (time_col_' (obj st))) (\<lambda>t.
         select_df
           (setitem
             (setitem [(''yhat'', FloatCol (map Some (mean_dim0 draws n (nrows f)))),
                       (''yhat_lower'', FloatCol (map Some yhat_lower)),
                       (''yhat_upper'', FloatCol (map Some yhat_upper))] ''y'' (FloatCol y))
             (time_col_' (obj st)) t)
           [time_col_' (obj st), ''y'', ''yhat'', ''yhat_upper'', ''yhat_lower'']))))))))
       else Inl NotImplementedError)"
proof (cases "transform_frame (obj st) data")
  case (Inl e)
  then show ?thesis by (simp add: predict_def preprocess_def)
next
  case t: (Inr internal)
  show ?thesis
  proof (cases "bindE (getitem internal (target_col_' (obj st))) to_tensor")
    case (Inl e)
    then show ?thesis using t by (simp add: predict_def preprocess_def)
  next
    case y: (Inr y)
    show ?thesis
    proof (cases "drop_df internal [target_col_' (obj st)]")
      case (Inl e)
      then show ?thesis using t y by (simp add: predict_def preprocess_def)
    next
      case f: (Inr f)
      show ?thesis
        using t y f
        by (cases "values_tensor f")
          (simp_all add: predict_def preprocess_def Let_def lower_rank_def upper_rank_def)
    qed
  qed
qed

text \<open>
  Claim C9, as amended.  For a method other than \<^verbatim>\<open>"MLE"\<close> and \<^verbatim>\<open>"MAP"\<close>, \<^verbatim>\<open>fit\<close>
  never completes: it ends with an exception on every series, and prints nothing, so the
  line of the MCMC branch is never printed.  When the lines before the dispatch pass (the
  feature builder, the target and the tensors), the exception is the AttributeError of
  reading \<^verbatim>\<open>self.method\<close>, an attribute the object does not have; the history and the
  column names are set by then.  When one of those lines raises, \<^verbatim>\<open>fit\<close> ends with that
  exception, the history being set.
\<close>

theorem fit_unsupported_method:
  assumes "method_' (obj st) \<notin> set [''MLE'', ''MAP'']"
  shows "(\<exists>e. snd (fit svi st data) = Inl e)
     \<and> stdout (fst (fit svi st data)) = stdout st
     \<and> (\<forall>y f X. preprocess (obj st) data = Inr (y, f, X) \<longrightarrow>
           fit svi st data = (with_X_names (with_history st data) (columns f), Inl AttributeError))
     \<and> (\<forall>e. preprocess (obj st) data = Inl e \<longrightarrow>
           fit svi st data = (with_history st data, Inl e))"
proof (cases "preprocess (obj st) data")
  case (Inl e)
  then show ?thesis by (simp add: fit_preprocess with_history_def)
next
  case (Inr r)
  obtain y f X where r: "r = (y, f, X)" by (cases r)
  have m: "method_' (obj (with_X_names (with_history st data) (columns f))) \<noteq> ''MLE''"
      "method_' (obj (with_X_names (with_history st data) (columns f))) \<noteq> ''MAP''"
    using assms by (simp_all add: with_X_names_def with_history_def)
  show ?thesis
    using Inr r fit_dispatch_unsupported[OF m]
    by (simp add: fit_preprocess with_X_names_def with_history_def)
qed

text \<open>
  Claim C4, as amended.  For a method other than \<^verbatim>\<open>"MLE"\<close> and \<^verbatim>\<open>"MAP"\<close>, the three
  seasonality getters raise NotImplementedError, and \<^verbatim>\<open>predict\<close> returns no result on
  any input; when the lines before its dispatch pass (the feature builder, the target and
  the tensors), its exception is NotImplementedError, and when one of those lines raises,
  \<^verbatim>\<open>predict\<close> ends with that exception.
\<close>

theorem unsupported_method_not_implemented:
  assumes "method_' (obj st) \<notin> set [''MLE'', ''MAP'']"
  shows "get_weekly_seasonality st = Inl NotImplementedError
     \<and> get_monthly_seasonality st = Inl NotImplementedError
     \<and> get_yearly_seasonality st = Inl NotImplementedError
     \<and> (\<forall>pred data n ci.
           (\<exists>e. predict pred st data n ci = Inl e)
         \<and> ((\<exists>r. preprocess (obj st) data = Inr r) \<longrightarrow>
               predict pred st data n ci = Inl NotImplementedError)
         \<and> (\<forall>e. preprocess (obj st) data = Inl e \<longrightarrow> predict pred st data n ci = Inl e))"
proof -
  have p: "(\<exists>e. predict pred st data n ci = Inl e)
         \<and> ((\<exists>r. preprocess (obj st) data = Inr r) \<longrightarrow>
               predict pred st data n ci = Inl NotImplementedError)
         \<and> (\<forall>e. preprocess (obj st) data = Inl e \<longrightarrow> predict pred st data n ci = Inl e)"
    for pred data n ci
    using assms by (cases "preprocess (obj st) data") (auto simp: predict_preprocess)
  show ?thesis
    using assms p
    by (simp add: get_weekly_seasonality_def get_monthly_seasonality_def
        get_yearly_seasonality_def)
qed

lemma map_of_setitem_other:
  "name' \<noteq> name \<Longrightarrow> map_of (setitem f name c) name' = map_of f name'"
  by (induction f) auto

lemma values_tensor_length: "values_tensor f = Inr X \<Longrightarrow> length X = length f"
  by (induction f arbitrary: X) (auto simp: bindE_eq_Inr)

lemma values_tensor_float:
  "list_all (\<lambda>p. is_float (snd p)) f \<Longrightarrow> \<exists>X. values_tensor f = Inr X"
proof (induction f)
  case Nil
  then show ?case by simp
next
  case (Cons p f)
  then obtain X where "values_tensor f = Inr X" by auto
  moreover from Cons.prems obtain xs where "snd p = FloatCol xs"
    by (cases "snd p") (auto simp: is_float_def)
  ultimately show ?case by (simp add: to_tensor_def)
qed

lemma is_float_setitem:
  "distinct (columns f) \<Longrightarrow> list_all (\<lambda>p. fst p = name \<or> is_float (snd p)) f \<Longrightarrow>
   is_float c \<Longrightarrow> list_all (\<lambda>p. is_float (snd p)) (setitem f name c)"
proof (induction f)
  case Nil
  then show ?case by simp
next
  case (Cons p f)
  show ?case
  proof (cases "fst p = name")
    case True
    then have nin: "name \<notin> fst ` set f" using Cons.prems(1) by (simp add: columns_def)
    have "is_float (snd q)" if q: "q \<in> set f" for q
    proof -
      from q have "fst q \<in> fst ` set f" by (rule imageI)
      with nin have "fst q \<noteq> name" by metis
      moreover from Cons.prems(2) q have "fst q = name \<or> is_float (snd q)"
        by (simp add: list_all_iff)
      ultimately show ?thesis by simp
    qed
    then have "list_all (\<lambda>p. is_float (snd p)) f" by (simp add: list_all_iff)
    then show ?thesis using True Cons.prems(3) by simp
  next
    case False
    then show ?thesis using Cons by (simp add: columns_def)
  qed
qed

lemma is_float_harmonic: "list_all (\<lambda>p. is_float (snd p)) (harmonic_columns tag period idx n)"
  by (auto simp: harmonic_columns_def harmonic_pair_def list_all_iff is_float_def)

lemma preprocess_valid:
  assumes valid: "valid_series self data"
    and tg: "map_of data (target_col_' self) = Some (FloatCol ys)"
    and fl: "list_all (\<lambda>p. fst p = time_col_' self \<or> is_float (snd p)) data"
    and dist: "distinct (columns data)"
  shows "\<exists>f X. preprocess self data = Inr (ys, f, X) \<and> nrows f = nrows data
           \<and> columns f = filter (\<lambda>n. n \<noteq> target_col_' self)
                            (''CONST'' # columns data @ sincos_names self)
           \<and> length X = length f"
proof -
  let ?t = "target_col_' self"
  let ?tc = "time_col_' self"
  let ?ts = "time_values self data"
  let ?out = "transformed self data ?ts"
  let ?d = "setitem data ?tc (FloatCol (time_in_days ?ts))"
  let ?H = "harmonic_columns ''yearly'' 366 (yearday_idx ?ts) (year_seasonality_order_' self)
            @ harmonic_columns ''monthly'' 31 (monthday_idx ?ts) (month_seasonality_order_' self)
            @ harmonic_columns ''weekly'' 7 (weekday_idx ?ts) (weekly_seasonality_order_' self)"
  note tc = valid_series_time[OF valid]
  have ne: "?t \<noteq> ?tc" using tc tg by auto
  have t_in: "?t \<in> set (columns data)" using tg by (rule map_of_in_columns)
  have t_const: "?t \<noteq> ''CONST''"
    using valid_series_fresh[OF valid] t_in by (auto simp: list_all_iff generated_names_def)
  have out: "?out = (''CONST'', FloatCol (replicate (nrows data) (Some 1))) # ?d @ ?H"
    by (simp add: transformed_def)
  have "map_of ?d ?t = Some (FloatCol ys)"
    using tg ne by (simp add: map_of_setitem_other)
  then have "map_of (?d @ ?H) ?t = Some (FloatCol ys)"
    by (rule map_of_append_left)
  then have g: "getitem ?out ?t = Inr (FloatCol ys)"
    using t_const by (simp add: out getitem_def)
  have cols: "columns ?out = ''CONST'' # columns data @ sincos_names self"
    by (rule columns_transformed[OF tc])
  have d: "drop_df ?out [?t] = Inr (filter (\<lambda>p. fst p \<noteq> ?t) ?out)"
    using t_in by (simp add: drop_df_def cols)
  let ?f = "filter (\<lambda>p. fst p \<noteq> ?t) ?out"
  have "list_all (\<lambda>p. is_float (snd p)) ?d"
    using dist fl by (rule is_float_setitem) (simp add: is_float_def)
  then have "list_all (\<lambda>p. is_float (snd p)) ?out"
    using is_float_harmonic by (simp add: out is_float_def)
  then have "list_all (\<lambda>p. is_float (snd p)) ?f"
    by (simp add: list_all_iff)
  then obtain X where X: "values_tensor ?f = Inr X"
    using values_tensor_float by blast
  have n: "nrows ?f = nrows data"
    using t_const by (simp add: out nrows_def)
  have cf: "columns ?f = filter (\<lambda>n. n \<noteq> ?t) (columns ?out)"
    by (simp add: columns_def filter_map comp_def)
  have "preprocess self data = Inr (ys, ?f, X)"
    by (simp add: preprocess_def transform_frame_valid_series[OF valid] g d X to_tensor_def)
  then show ?thesis
    using n cf cols values_tensor_length[OF X] by auto
qed

lemma transform_frame_time_col:
  assumes "transform_frame self data = Inr out"
  shows "\<exists>ts. map_of data (time_col_' self) = Some (DatetimeCol ts)"
proof -
  from assms obtain g where "run (transform_body self) data = Inr g"
    by (auto simp: transform_frame_run bindE_eq_Inr)
  then obtain f1 where "set_weekday (time_col_' self) data = Inr f1"
    by (auto simp: transform_body_def bindE_eq_Inr)
  then show ?thesis
    by (auto simp: set_weekday_def bindE_eq_Inr getitem_def dt_field_def
        split: option.splits column.splits)
qed

lemma valid_example:
  assumes "time_col_' self = ''ds''" "year_seasonality_order_' self = 1"
    "month_seasonality_order_' self = 1" "weekly_seasonality_order_' self = 1"
  shows "valid_series self example_series"
proof -
  have "generated_names self = generated_names example_model"
    using assms by (simp add: generated_names_def example_model_def init_def)
  then show ?thesis
    using example_valid assms by (simp add: valid_series_def example_model_def init_def)
qed

lemma preprocess_example:
  assumes "time_col_' self = ''ds''" "target_col_' self = ''y''" "year_seasonality_order_' self = 1"
    "month_seasonality_order_' self = 1" "weekly_seasonality_order_' self = 1"
  shows "\<exists>f X. preprocess self example_series = Inr ([Some 1, Some 2], f, X) \<and> nrows f = 2
           \<and> columns f = [''CONST'', ''ds'', ''yearly_sin_1'', ''yearly_cos_1'', ''monthly_sin_1'',
                           ''monthly_cos_1'', ''weekly_sin_1'', ''weekly_cos_1'']
           \<and> length X = 8"
proof -
  have v: "valid_series self example_series"
    using assms by (intro valid_example)
  have sc: "sincos_names self = [''yearly_sin_1'', ''yearly_cos_1'', ''monthly_sin_1'',
                                 ''monthly_cos_1'', ''weekly_sin_1'', ''weekly_cos_1'']"
    using assms by (simp add: sincos_names_def harmonic_names_def upto.simps str_int_1)
  from preprocess_valid[OF v, of "[Some 1, Some 2]"] assms
  obtain f X where p: "preprocess self example_series = Inr ([Some 1, Some 2], f, X)"
    and n: "nrows f = nrows example_series"
    and c: "columns f = filter (\<lambda>n. n \<noteq> target_col_' self)
                          (''CONST'' # columns example_series @ sincos_names self)"
    and l: "length X = length f"
    by (auto simp: example_series_def is_float_def columns_def)
  have ec: "columns example_series = [''ds'', ''y'']"
    by (simp add: example_series_def columns_def)
  have c': "columns f = [''CONST'', ''ds'', ''yearly_sin_1'', ''yearly_cos_1'', ''monthly_sin_1'',
                          ''monthly_cos_1'', ''weekly_sin_1'', ''weekly_cos_1'']"
    using c assms(2) by (simp add: sc ec)
  then have "length (columns f) = 8" by simp
  then have lf: "length f = 8" by (simp add: columns_def)
  have "nrows example_series = 2" by (simp add: example_series_def nrows_def)
  then show ?thesis
    using p n c' l lf by simp
qed

theorem fit_unsupported_method_witness:
  "method_' (obj mcmc_state) \<notin> set [''MLE'', ''MAP'']
   \<and> (\<exists>r. preprocess (obj mcmc_state) example_series = Inr r)
   \<and> snd (fit zero_trainer mcmc_state example_series) = Inl AttributeError
   \<and> stdout (fst (fit zero_trainer mcmc_state example_series)) = []"
proof -
  have m: "method_' (obj mcmc_state) \<notin> set [''MLE'', ''MAP'']"
    by (simp add: mcmc_state_def init_def)
  obtain f X where p: "preprocess (obj mcmc_state) example_series = Inr ([Some 1, Some 2], f, X)"
    using preprocess_example[of "obj mcmc_state"] by (auto simp: mcmc_state_def init_def)
  from fit_unsupported_method[OF m, of zero_trainer example_series] p m
  show ?thesis by (auto simp: mcmc_state_def)
qed

theorem unsupported_method_not_implemented_witness:
  "method_' (obj mcmc_state) \<notin> set [''MLE'', ''MAP'']
   \<and> get_weekly_seasonality mcmc_state = Inl NotImplementedError
   \<and> (\<exists>r. preprocess (obj mcmc_state) example_series = Inr r)
   \<and> predict zero_sampler mcmc_state example_series 100 (95 / 100) = Inl NotImplementedError"
proof -
  have m: "method_' (obj mcmc_state) \<notin> set [''MLE'', ''MAP'']"
    by (simp add: mcmc_state_def init_def)
  obtain f X where p: "preprocess (obj mcmc_state) example_series = Inr ([Some 1, Some 2], f, X)"
    using preprocess_example[of "obj mcmc_state"] by (auto simp: mcmc_state_def init_def)
  from unsupported_method_not_implemented[OF m] p m
  show ?thesis by auto
qed

subsection \<open>Fitted models and the future frame\<close>

lemma train_success:
  assumes "train_point_estimate svi st m g X y = (st', Inr ())"
  shows "\<exists>p. st' = st\<lparr>params := store_params m p (length X)\<rparr>"
  using assms
  by (auto simp: train_point_estimate_def Let_def split: if_splits sum.splits)

lemma fit_dispatch_success:
  assumes "fit_dispatch svi st X y = (st', Inr ())"
  shows "\<exists>m g p. method_' (obj st) \<in> set [''MLE'', ''MAP'']
           \<and> m = (if method_' (obj st) = ''MLE'' then model_MLE_' else model_MAP_')
           \<and> obj st' = (obj st)\<lparr>model := Some m, guide := Some g\<rparr>
           \<and> params st' = store_params m p (length X)"
proof (cases "method_' (obj st) \<in> set [''MLE'', ''MAP'']")
  case False
  then show ?thesis using assms by (simp add: fit_dispatch_def getattr_method)
next
  case True
  show ?thesis
  proof (cases "method_' (obj st) = ''MLE''")
    case mle: True
    let ?st2 = "(print ''Employing Maximum Likelihood Estimation'' st)
                  \<lparr>obj := (obj (print ''Employing Maximum Likelihood Estimation'' st))
                      \<lparr>model := Some model_MLE_', guide := Some guide_MLE_'\<rparr>\<rparr>"
    from assms mle have "train_point_estimate svi ?st2 model_MLE_' guide_MLE_' X y = (st', Inr ())"
      by (simp add: fit_dispatch_def Let_def)
    from train_success[OF this] obtain p
      where "st' = ?st2\<lparr>params := store_params model_MLE_' p (length X)\<rparr>" ..
    then show ?thesis using mle by (auto simp: print_def)
  next
    case map: False
    let ?st2 = "(print ''Employing Maximum A Posteriori'' st)
                  \<lparr>obj := (obj (print ''Employing Maximum A Posteriori'' st))
                      \<lparr>model := Some model_MAP_', guide := Some (AutoDelta model_MAP_')\<rparr>\<rparr>"
    from assms map True
    have "train_point_estimate svi ?st2 model_MAP_' (AutoDelta model_MAP_') X y = (st', Inr ())"
      by (simp add: fit_dispatch_def Let_def)
    from train_success[OF this] obtain p
      where "st' = ?st2\<lparr>params := store_params model_MAP_' p (length X)\<rparr>" ..
    then show ?thesis using map True by (auto simp: print_def)
  qed
qed

lemma fit_success:
  assumes "fit svi st0 data = (st, Inr ())"
  shows "\<exists>y f X m g p.
           preprocess (obj st0) data = Inr (y, f, X)
         \<and> method_' (obj st0) \<in> set [''MLE'', ''MAP'']
         \<and> m = (if method_' (obj st0) = ''MLE'' then model_MLE_' else model_MAP_')
         \<and> obj st = (obj st0)\<lparr>history := Some data, X_names := Some (columns f),
                                 model := Some m, guide := Some g\<rparr>
         \<and> params st = store_params m p (length X)"
proof (cases "preprocess (obj st0) data")
  case (Inl e)
  then show ?thesis using assms by (simp add: fit_preprocess)
next
  case (Inr r)
  obtain y f X where r: "r = (y, f, X)" by (cases r)
  let ?st1 = "with_X_names (with_history st0 data) (columns f)"
  from assms Inr r have "fit_dispatch svi ?st1 X y = (st, Inr ())"
    by (simp add: fit_preprocess)
  from fit_dispatch_success[OF this] obtain m g p where
    "method_' (obj ?st1) \<in> set [''MLE'', ''MAP'']"
    "m = (if method_' (obj ?st1) = ''MLE'' then model_MLE_' else model_MAP_')"
    "obj st = (obj ?st1)\<lparr>model := Some m, guide := Some g\<rparr>"
    "params st = store_params m p (length X)"
    by blast
  then show ?thesis
    using Inr r by (auto simp: with_X_names_def with_history_def)
qed

lemma store_params_betas:
  assumes "m = (if method_' self = ''MLE'' then model_MLE_' else model_MAP_')"
    and "method_' self \<in> set [''MLE'', ''MAP'']"
  shows "store_params m p n (betas_name self) = Some (map (coef p) [0..<n])"
  using assms by (auto simp: store_params_def betas_name_def)

lemma fit_example: "fit zero_trainer initial_state example_series = (fitted_example, Inr ())"
proof -
  obtain f X where p: "preprocess (obj initial_state) example_series = Inr ([Some 1, Some 2], f, X)"
    using preprocess_example[of "obj initial_state"]
    by (auto simp: initial_state_def example_model_def init_def)
  have "fit zero_trainer initial_state example_series
        = fit_dispatch zero_trainer
            (with_X_names (with_history initial_state example_series) (columns f)) X [Some 1, Some 2]"
    by (simp add: fit_preprocess p)
  then have "snd (fit zero_trainer initial_state example_series) = Inr ()"
    by (simp add: fit_dispatch_def train_point_estimate_def Let_def
        initial_state_def example_model_def init_def with_X_names_def with_history_def
        print_def zero_trainer_def)
  then show ?thesis
    by (simp add: fitted_example_def prod_eq_iff)
qed

lemma fitted_example_obj:
  "method_' (obj fitted_example) = ''MLE''" "time_col_' (obj fitted_example) = ''ds''"
  "target_col_' (obj fitted_example) = ''y''" "history (obj fitted_example) = Some example_series"
  "model (obj fitted_example) = Some model_MLE_'" 
  "year_seasonality_order_' (obj fitted_example) = 1"
  "month_seasonality_order_' (obj fitted_example) = 1"
  "weekly_seasonality_order_' (obj fitted_example) = 1"
  "guide (obj fitted_example) \<noteq> None"
  using fit_success[OF fit_example]
  by (auto simp: initial_state_def example_model_def init_def)

lemma length_to_cells: "length (to_cells c) = col_len c"
  by (cases c) simp_all

lemma col_len_append_col: "col_len (append_col a b) = col_len a + col_len b"
  by (cases a; cases b) (simp_all add: length_to_cells)

lemma col_len_na_like: "col_len (na_like c n) = n"
  by (cases c) simp_all

lemma nrows_concat_df:
  assumes "a \<noteq> []" "list_all (\<lambda>p. col_len (snd p) = nrows b) b"
  shows "nrows (concat_df a b) = nrows a + nrows b"
proof -
  obtain p ps where a: "a = p # ps" using assms(1) by (cases a) auto
  have "col_len c = nrows b" if "map_of b k = Some c" for k c
    using map_of_SomeD[OF that] assms(2) by (auto simp: list_all_iff)
  then show ?thesis
    by (auto simp: a concat_df_def nrows_def col_len_append_col col_len_na_like split: option.splits)
qed

lemma map_of_map_keyed:
  "map_of (map (\<lambda>p. (fst p, g (fst p) (snd p))) a) k = map_option (g k) (map_of a k)"
  by (induction a) auto

lemma getitem_concat_df:
  assumes "map_of a k = Some c" "map_of b k = Some c'"
  shows "getitem (concat_df a b) k = Inr (append_col c c')"
proof -
  let ?g = "\<lambda>n c. case map_of b n of None \<Rightarrow> append_col c (na_like c (nrows b))
                                    | Some c' \<Rightarrow> append_col c c'"
  have "map_of (map (\<lambda>p. (fst p, ?g (fst p) (snd p))) a) k = Some (append_col c c')"
    using assms map_of_map_keyed[of ?g a k] by simp
  then show ?thesis
    unfolding concat_df_def getitem_def by (simp add: map_of_append_left)
qed

lemma max_ts_None: "max_ts ts = None \<Longrightarrow> Some u \<notin> set ts"
  by (induction ts rule: max_ts.induct) (auto split: option.splits)

lemma max_ts_ge: "max_ts ts = Some m \<Longrightarrow> Some u \<in> set ts \<Longrightarrow> u \<le> m"
proof (induction ts arbitrary: m rule: max_ts.induct)
  case 1
  then show ?case by simp
next
  case (2 ts)
  then show ?case by auto
next
  case (3 t ts)
  then show ?case using max_ts_None[of ts u] by (cases "max_ts ts") auto
qed

lemma tick_ns_pos: "0 < tick_ns freq"
  by (cases freq) (simp_all add: ns_per_day_def)

lemma new_dates_props:
  "length (new_dates m period freq) = period"
  "list_all (\<lambda>t. m < t) (new_dates m period freq)"
  "sorted_wrt (<) (new_dates m period freq)"
proof -
  show "length (new_dates m period freq) = period" by (simp add: new_dates_def)
  show "list_all (\<lambda>t. m < t) (new_dates m period freq)"
    using tick_ns_pos[of freq] by (auto simp: new_dates_def list_all_iff)
  have s: "sorted_wrt (<) [1..<Suc period]" by (rule sorted_wrt_upt)
  have "sorted_wrt (\<lambda>j k. m + int j * tick_ns freq < m + int k * tick_ns freq) [1..<Suc period]"
  proof (rule sorted_wrt_mono_rel[OF _ s])
    fix j k :: nat
    assume "j < k"
    then have "int j * tick_ns freq < int k * tick_ns freq"
      using tick_ns_pos[of freq] by (intro mult_strict_right_mono) simp_all
    then show "m + int j * tick_ns freq < m + int k * tick_ns freq" by simp
  qed
  then show "sorted_wrt (<) (new_dates m period freq)"
    by (simp add: new_dates_def sorted_wrt_map)
qed

lemma date_range_Suc:
  assumes "m + int period * tick_ns freq \<le> max_timestamp"
  shows "date_range (Some m) (Suc period) freq = Inr (m # new_dates m period freq)"
proof -
  have "[0..<Suc period] = 0 # [1..<Suc period]"
    using upt_rec[of 0 "Suc period"] by simp
  moreover have "\<not> (0 < Suc period \<and> max_timestamp < m + (int (Suc period) - 1) * tick_ns freq)"
    using assms by simp
  ultimately show ?thesis
    by (simp only: date_range_def new_dates_def option.case list.map if_False) simp
qed

lemma date_range_late:
  assumes "max_timestamp < m + int period * tick_ns freq"
  shows "date_range (Some m) (Suc period) freq = Inl OutOfBoundsDatetime"
  using assms by (simp add: date_range_def)

lemma make_future_result:
  assumes h: "history (obj st) = Some hist"
    and tc: "map_of hist (time_col_' (obj st)) = Some (DatetimeCol ts)"
    and m: "max_ts ts = Some m"
    and ne: "time_col_' (obj st) \<noteq> target_col_' (obj st)"
    and bound: "m + int period * tick_ns freq \<le> max_timestamp"
  shows "make_future_dataframe st period freq include_history
         = Inr (concat_df hist
                  [(time_col_' (obj st), DatetimeCol (map Some (new_dates m period freq))),
                   (target_col_' (obj st), FloatCol (replicate period None))])"
  unfolding make_future_dataframe_def
  using ne
  by (simp add: h getattr_opt_def getitem_def tc max_of_column_def m date_range_Suc[OF bound]
      Let_def new_dates_props(1))

lemma make_future_late:
  assumes h: "history (obj st) = Some hist"
    and tc: "map_of hist (time_col_' (obj st)) = Some (DatetimeCol ts)"
    and m: "max_ts ts = Some m"
    and late: "max_timestamp < m + int period * tick_ns freq"
  shows "make_future_dataframe st period freq include_history = Inl OutOfBoundsDatetime"
  unfolding make_future_dataframe_def
  by (simp add: h getattr_opt_def getitem_def tc max_of_column_def m date_range_late[OF late])

lemma preprocess_time_col:
  assumes "preprocess self data = Inr r"
  shows "map_of data (time_col_' self) = Some (DatetimeCol (time_values self data))"
proof -
  from assms obtain out where "transform_frame self data = Inr out"
    by (auto simp: preprocess_def bindE_eq_Inr)
  from transform_frame_time_col[OF this] show ?thesis
    by (auto simp: time_values_def)
qed

lemma fitted_history:
  assumes "fit svi st0 data = (st, Inr ())"
  shows "history (obj st) = Some data"
    and "map_of data (time_col_' (obj st)) = Some (DatetimeCol (time_values (obj st) data))"
proof -
  from fit_success[OF assms] obtain y f X m g where
    p: "preprocess (obj st0) data = Inr (y, f, X)"
    and o: "obj st = (obj st0)\<lparr>history := Some data, X_names := Some (columns f),
                                model := Some m, guide := Some g\<rparr>"
    by blast
  show "history (obj st) = Some data" by (simp add: o)
  have "time_values (obj st) data = time_values (obj st0) data"
    by (simp add: o time_values_def)
  then show "map_of data (time_col_' (obj st)) = Some (DatetimeCol (time_values (obj st) data))"
    using preprocess_time_col[OF p] by (simp add: o)
qed

text \<open>
  Claim C5, as amended.  For a model that \<^verbatim>\<open>fit\<close> has fitted on a series with at least
  one timestamp, time and target being two columns and the day 30 days after the greatest
  timestamp \<open>m\<close> of the history being no later than the latest timestamp:
  \<^verbatim>\<open>make_future_dataframe\<close> with 30 periods, daily frequency and
  \<^verbatim>\<open>include_history=True\<close> returns a frame with the history's row count plus 30 rows;
  its time column is the history's followed by 30 new timestamps, each strictly greater
  than \<open>m\<close>, and strictly increasing.
\<close>

theorem future_frame_daily:
  assumes fitted: "fit svi st0 data = (st, Inr ())"
    and nonempty: "max_ts (time_values (obj st) data) = Some m"
    and two: "time_col_' (obj st) \<noteq> target_col_' (obj st)"
    and bound: "m + 30 * ns_per_day \<le> max_timestamp"
  shows "\<exists>res new. make_future_dataframe st 30 Freq_D True = Inr res
           \<and> nrows res = nrows data + 30
           \<and> getitem res (time_col_' (obj st))
               = Inr (DatetimeCol (time_values (obj st) data @ map Some new))
           \<and> length new = 30
           \<and> list_all (\<lambda>t. m < t) new
           \<and> sorted_wrt (<) new
           \<and> list_all (\<lambda>u. case u of None \<Rightarrow> True | Some v \<Rightarrow> v \<le> m) (time_values (obj st) data)"
proof -
  let ?tc = "time_col_' (obj st)"
  let ?ts = "time_values (obj st) data"
  let ?new = "new_dates m 30 Freq_D"
  let ?fut = "[(?tc, DatetimeCol (map Some ?new)),
               (target_col_' (obj st), FloatCol (replicate 30 None))]"
  note h = fitted_history[OF fitted]
  have "m + int 30 * tick_ns Freq_D \<le> max_timestamp" using bound by simp
  then have r: "make_future_dataframe st 30 Freq_D True = Inr (concat_df data ?fut)"
    by (rule make_future_result[OF h nonempty two])
  have ne: "data \<noteq> []" using h(2) by auto
  have nf: "nrows ?fut = 30" by (simp add: nrows_def new_dates_props(1))
  have "list_all (\<lambda>p. col_len (snd p) = nrows ?fut) ?fut"
    by (simp add: nf new_dates_props(1))
  from nrows_concat_df[OF ne this] have n: "nrows (concat_df data ?fut) = nrows data + 30"
    by (simp only: nf)
  have g: "getitem (concat_df data ?fut) ?tc = Inr (DatetimeCol (?ts @ map Some ?new))"
    using getitem_concat_df[OF h(2), of ?fut "DatetimeCol (map Some ?new)"] by simp
  have le: "list_all (\<lambda>u. case u of None \<Rightarrow> True | Some v \<Rightarrow> v \<le> m) ?ts"
    using max_ts_ge[OF nonempty] by (auto simp: list_all_iff split: option.splits)
  show ?thesis
    using r n g le new_dates_props[of m 30 Freq_D] by blast
qed

lemma fit_mle_returns:
  assumes "preprocess (obj st0) data = Inr (y, f, X)"
    and "method_' (obj st0) = ''MLE''" "0 < n_iter_' (obj st0)"
    and "svi model_MLE_' guide_MLE_' X y (lr_' (obj st0)) (n_iter_' (obj st0)) = Inr p"
    and "y \<noteq> []"
  shows "snd (fit svi st0 data) = Inr ()"
  using assms
  by (simp add: fit_preprocess fit_dispatch_def train_point_estimate_def Let_def
      with_X_names_def with_history_def print_def)

lemma example_time_values: "time_values (obj fitted_example) example_series = [Some 0, Some 86400000000000]"
  by (simp add: time_values_def fitted_example_obj example_series_def)

theorem future_frame_daily_witness:
  "fit zero_trainer initial_state example_series = (fitted_example, Inr ())
   \<and> max_ts (time_values (obj fitted_example) example_series) = Some 86400000000000
   \<and> time_col_' (obj fitted_example) \<noteq> target_col_' (obj fitted_example)
   \<and> 86400000000000 + 30 * ns_per_day \<le> max_timestamp
   \<and> (\<exists>res new. make_future_dataframe fitted_example 30 Freq_D True = Inr res
         \<and> nrows res = 32
         \<and> getitem res ''ds'' = Inr (DatetimeCol ([Some 0, Some 86400000000000] @ map Some new))
         \<and> length new = 30
         \<and> list_all (\<lambda>t. 86400000000000 < t) new
         \<and> sorted_wrt (<) new)"
proof -
  have m: "max_ts (time_values (obj fitted_example) example_series) = Some 86400000000000"
    by (simp add: example_time_values)
  have t: "time_col_' (obj fitted_example) \<noteq> target_col_' (obj fitted_example)"
    by (simp add: fitted_example_obj)
  have n: "nrows example_series = 2" by (simp add: example_series_def nrows_def)
  have b: "86400000000000 + 30 * ns_per_day \<le> max_timestamp"
    by (simp add: ns_per_day_def max_timestamp_def)
  from future_frame_daily[OF fit_example m t b]
  show ?thesis
    using fit_example m t b by (simp add: fitted_example_obj example_time_values n)
qed

theorem future_frame_out_of_bounds_counterexample:
  "snd (fit zero_trainer initial_state late_series) = Inr ()
   \<and> getitem late_series ''ds'' = Inr (DatetimeCol [Some 0, Some 9223286400000000000])
   \<and> 9223286400000000000 \<le> max_timestamp
   \<and> make_future_dataframe (fst (fit zero_trainer initial_state late_series)) 30 Freq_D True
       = Inl OutOfBoundsDatetime"
proof -
  let ?st = "fst (fit zero_trainer initial_state late_series)"
  have g: "generated_names (obj initial_state) = generated_names example_model"
    by (simp add: initial_state_def)
  have v: "valid_series (obj initial_state) late_series"
    unfolding valid_series_def g example_names
    by (simp add: late_series_def initial_state_def example_model_def init_def helper_names_def
        columns_def)
  from preprocess_valid[OF v, of "[Some 1, Some 2]"]
  obtain f X where p: "preprocess (obj initial_state) late_series = Inr ([Some 1, Some 2], f, X)"
    by (auto simp: late_series_def initial_state_def example_model_def init_def is_float_def
        columns_def)
  have ok: "snd (fit zero_trainer initial_state late_series) = Inr ()"
    by (rule fit_mle_returns[OF p])
      (simp_all add: initial_state_def example_model_def init_def zero_trainer_def)
  then have fit: "fit zero_trainer initial_state late_series = (?st, Inr ())"
    by (simp add: prod_eq_iff)
  note h = fitted_history[OF fit]
  from fit_success[OF fit] obtain y' f' m' g' where
    o: "obj ?st = (obj initial_state)\<lparr>history := Some late_series, X_names := Some (columns f'),
                                         model := Some m', guide := Some g'\<rparr>"
    by blast
  have tc: "time_col_' (obj ?st) = ''ds''"
    unfolding o by (simp add: initial_state_def example_model_def init_def)
  have m: "max_ts (time_values (obj ?st) late_series) = Some 9223286400000000000"
    unfolding time_values_def tc by (simp add: late_series_def)
  have late: "max_timestamp < 9223286400000000000 + int 30 * tick_ns Freq_D"
    by (simp add: max_timestamp_def ns_per_day_def)
  have b: "9223286400000000000 \<le> max_timestamp"
    by (simp add: max_timestamp_def)
  have gi: "getitem late_series ''ds'' = Inr (DatetimeCol [Some 0, Some 9223286400000000000])"
    by (simp add: getitem_def late_series_def)
  show ?thesis
    using ok gi b make_future_late[OF h(1) h(2) m late] by simp
qed

text \<open>
  Claim C3 at a failing input: with \<^verbatim>\<open>include_history=False\<close> and one period, on the
  model fitted on a history of two rows, the frame returned still holds the two rows of
  the history before the one new row.  The new row has a NaN target and a date one day
  after the latest of the history.
\<close>

theorem include_history_ignored:
  "make_future_dataframe fitted_example 1 Freq_D False
   = Inr [(''ds'', DatetimeCol [Some 0, Some 86400000000000, Some 172800000000000]),
          (''y'', FloatCol [Some 1, Some 2, None])]"
proof -
  have h: "history (obj fitted_example) = Some example_series"
    by (simp add: fitted_example_obj)
  have tc: "map_of example_series (time_col_' (obj fitted_example))
            = Some (DatetimeCol [Some 0, Some 86400000000000])"
    by (simp add: fitted_example_obj example_series_def)
  have m: "max_ts [Some 0, Some 86400000000000] = Some 86400000000000" by simp
  have t: "time_col_' (obj fitted_example) \<noteq> target_col_' (obj fitted_example)"
    by (simp add: fitted_example_obj)
  have b: "86400000000000 + int 1 * tick_ns Freq_D \<le> max_timestamp"
    by (simp add: ns_per_day_def max_timestamp_def)
  show ?thesis
    unfolding make_future_result[OF h tc m t b]
    by (simp add: fitted_example_obj concat_df_def example_series_def new_dates_def
        ns_per_day_def columns_def nrows_def)
qed

subsection \<open>The prediction interval\<close>

lemma powi_pos: "0 < (2::real) powi e"
  by (simp add: zero_less_power_int)

lemma powi_nat: "0 \<le> e \<Longrightarrow> (2::real) powi e = of_int (2 ^ nat e)"
  by (simp add: power_int_def)

lemma powi_mono: "a \<le> b \<Longrightarrow> (2::real) powi a \<le> 2 powi b"
  by (rule power_int_increasing) simp_all

lemma powi_split: "(2::real) powi (a + b) = 2 powi a * 2 powi b"
  by (rule power_int_add) simp

lemma float_exponent_bounds:
  assumes "x \<noteq> 0"
  shows "2 powi float_exponent x \<le> \<bar>x\<bar>" and "\<bar>x\<bar> < 2 powi (float_exponent x + 1)"
proof -
  have "2 powi float_exponent x \<le> \<bar>x\<bar> \<and> \<bar>x\<bar> < 2 powi (float_exponent x + 1)"
  proof (cases "1 \<le> \<bar>x\<bar>")
    case True
    let ?a = "\<lfloor>\<bar>x\<bar>\<rfloor>"
    have a: "0 < ?a" using True by simp
    from bitlen_bounds[OF a] have lo: "2 ^ nat (bitlen ?a - 1) \<le> ?a" and hi: "?a < 2 ^ nat (bitlen ?a)"
      by simp_all
    have b1: "1 \<le> bitlen ?a" using a by (auto simp: bitlen_alt_def)
    have e: "float_exponent x = bitlen ?a - 1" using True by (simp add: float_exponent_def)
    have "(2::real) powi (bitlen ?a - 1) = of_int (2 ^ nat (bitlen ?a - 1))"
      using b1 by (intro powi_nat) simp
    also have "\<dots> \<le> of_int ?a" using lo by (simp only: of_int_le_iff)
    also have "\<dots> \<le> \<bar>x\<bar>" by simp
    finally have 1: "2 powi float_exponent x \<le> \<bar>x\<bar>" unfolding e .
    have "?a + 1 \<le> 2 ^ nat (bitlen ?a)" using hi by simp
    then have "(of_int (?a + 1) :: real) \<le> of_int (2 ^ nat (bitlen ?a))"
      by (simp only: of_int_le_iff)
    then have "of_int ?a + 1 \<le> (of_int (2 ^ nat (bitlen ?a)) :: real)" by simp
    moreover have "\<bar>x\<bar> < of_int ?a + 1" by linarith
    ultimately have "\<bar>x\<bar> < of_int (2 ^ nat (bitlen ?a))" by linarith
    moreover have "(2::real) powi (bitlen ?a) = of_int (2 ^ nat (bitlen ?a))"
      using b1 by (intro powi_nat) simp
    ultimately have 2: "\<bar>x\<bar> < 2 powi (float_exponent x + 1)" unfolding e by simp
    from 1 2 show ?thesis by simp
  next
    case False
    let ?y = "1 / \<bar>x\<bar>"
    let ?c = "\<lceil>?y\<rceil>"
    have x: "0 < \<bar>x\<bar>" "\<bar>x\<bar> < 1" using assms False by simp_all
    have y: "1 < ?y" using x by simp
    have c: "0 < ?c - 1" using y by linarith
    let ?b = "bitlen (?c - 1)"
    from bitlen_bounds[OF c] have lo: "2 ^ nat (?b - 1) \<le> ?c - 1" and hi: "?c - 1 < 2 ^ nat ?b"
      by simp_all
    have b1: "1 \<le> ?b" using c by (auto simp: bitlen_alt_def)
    have e: "float_exponent x = - ?b" using False by (simp add: float_exponent_def)
    have cb: "?c \<le> 2 ^ nat ?b" using hi by simp
    have "?y \<le> of_int ?c" by (rule le_of_int_ceiling)
    also have "\<dots> \<le> of_int (2 ^ nat ?b)" using cb by (simp only: of_int_le_iff)
    also have "\<dots> = 2 ^ nat ?b" by simp
    finally have yb: "?y \<le> 2 ^ nat ?b" .
    have "(2::real) powi (- ?b) = 1 / 2 ^ nat ?b"
      using b1 by (simp add: power_int_def inverse_eq_divide power_one_over)
    also have "\<dots> \<le> \<bar>x\<bar>"
      using yb x by (simp add: field_simps)
    finally have 1: "2 powi float_exponent x \<le> \<bar>x\<bar>" unfolding e .
    have "(of_int (2 ^ nat (?b - 1)) :: real) \<le> of_int (?c - 1)" using lo by (simp only: of_int_le_iff)
    moreover have "of_int (?c - 1) < ?y" by linarith
    ultimately have ylo: "2 ^ nat (?b - 1) < ?y" by simp
    have "(2::real) powi (- ?b + 1) = 1 / 2 ^ nat (?b - 1)"
      using b1 by (cases "?b = 1") (simp_all add: power_int_def inverse_eq_divide power_one_over)
    moreover have "\<bar>x\<bar> < 1 / 2 ^ nat (?b - 1)"
      using ylo x by (simp add: field_simps)
    ultimately have 2: "\<bar>x\<bar> < 2 powi (float_exponent x + 1)" unfolding e by simp
    from 1 2 show ?thesis by simp
  qed
  then show "2 powi float_exponent x \<le> \<bar>x\<bar>" and "\<bar>x\<bar> < 2 powi (float_exponent x + 1)"
    by simp_all
qed

lemma float_exponent_unique:
  assumes "2 powi k \<le> \<bar>x\<bar>" and "\<bar>x\<bar> < 2 powi (k + 1)"
  shows "float_exponent x = k"
proof -
  have "0 < \<bar>x\<bar>" using assms(1) powi_pos[of k] by linarith
  then have x: "x \<noteq> 0" by simp
  note b = float_exponent_bounds[OF x]
  have "\<not> float_exponent x < k"
  proof
    assume "float_exponent x < k"
    then have "(2::real) powi (float_exponent x + 1) \<le> 2 powi k" by (intro powi_mono) simp
    then show False using b(2) assms(1) by linarith
  qed
  moreover have "\<not> k < float_exponent x"
  proof
    assume "k < float_exponent x"
    then have "(2::real) powi (k + 1) \<le> 2 powi float_exponent x" by (intro powi_mono) simp
    then show False using b(1) assms(2) by linarith
  qed
  ultimately show ?thesis by simp
qed


lemma round_half_even_of_int [simp]: "round_half_even (of_int k) = k"
  by (simp add: round_half_even_def)





lemma float_round_0 [simp]: "float_round 0 = 0"
  by (simp add: float_round_def)



lemma float_round_exact:
  assumes "x = of_int m * 2 powi k" and m: "\<bar>m\<bar> < 2 ^ 53" and k: "- 1074 \<le> k"
  shows "float_round x = x"
proof (cases "m = 0")
  case True
  then show ?thesis using assms by simp
next
  case False
  have pk: "0 < (2::real) powi k" by (rule powi_pos)
  have x0: "x \<noteq> 0" using False assms(1) pk by simp
  have ax: "\<bar>x\<bar> = of_int \<bar>m\<bar> * 2 powi k"
    using pk by (simp add: assms(1) abs_mult)
  have "1 \<le> \<bar>m\<bar>" using False by simp
  then have "(1::real) \<le> of_int \<bar>m\<bar>" by (simp only: of_int_1_le_iff)
  then have lo: "2 powi k \<le> \<bar>x\<bar>" unfolding ax using pk by simp
  have "(of_int \<bar>m\<bar> :: real) < of_int (2 ^ 53)" using m by (simp only: of_int_less_iff)
  then have "\<bar>x\<bar> < 2 powi 53 * 2 powi k" unfolding ax using pk by simp
  then have hi: "\<bar>x\<bar> < 2 powi (k + 53)"
    using powi_split[of 53 k] by (simp add: add.commute)
  let ?e = "float_exponent x"
  note b = float_exponent_bounds[OF x0]
  have e1: "k \<le> ?e"
  proof (rule ccontr)
    assume "\<not> k \<le> ?e"
    then have "(2::real) powi (?e + 1) \<le> 2 powi k" by (intro powi_mono) simp
    then show False using b(2) lo by linarith
  qed
  have e2: "?e < k + 53"
  proof (rule ccontr)
    assume "\<not> ?e < k + 53"
    then have "(2::real) powi (k + 53) \<le> 2 powi ?e" by (intro powi_mono) simp
    then show False using b(1) hi by linarith
  qed
  let ?E = "max ?e (- 1022) - 52"
  have d: "0 \<le> k - ?E" using e2 k by simp
  have "(2::real) powi k = 2 powi (k - ?E) * 2 powi ?E"
    using powi_split[of "k - ?E" ?E] by simp
  also have "\<dots> = of_int (2 ^ nat (k - ?E)) * 2 powi ?E"
    by (simp only: powi_nat[OF d])
  finally have "x = of_int (m * 2 ^ nat (k - ?E)) * 2 powi ?E"
    by (simp add: assms(1) mult.assoc)
  then have "x / 2 powi ?E = of_int (m * 2 ^ nat (k - ?E)) * 2 powi ?E / 2 powi ?E"
    by (rule arg_cong)
  moreover have qn: "(2::real) powi ?E \<noteq> 0" using powi_pos[of ?E] by simp
  ultimately have xq: "x / 2 powi ?E = of_int (m * 2 ^ nat (k - ?E))"
    by (simp only: nonzero_mult_div_cancel_right[OF qn])
  have "float_round x = of_int (round_half_even (x / 2 powi ?E)) * 2 powi ?E"
    using x0 by (simp add: float_round_def Let_def)
  also have "\<dots> = x / 2 powi ?E * 2 powi ?E"
    unfolding xq by (simp only: round_half_even_of_int)
  also have "\<dots> = x" using powi_pos[of ?E] by simp
  finally show ?thesis .
qed

lemma float_round_eval:
  assumes "2 powi e \<le> \<bar>x\<bar>" "\<bar>x\<bar> < 2 powi (e + 1)" "- 1022 \<le> e"
  shows "float_round x = of_int (round_half_even (x / 2 powi (e - 52))) * 2 powi (e - 52)"
proof -
  have "0 < \<bar>x\<bar>" using assms(1) powi_pos[of e] by linarith
  then have "x \<noteq> 0" by simp
  moreover have "max (float_exponent x) (- 1022) = e"
    using float_exponent_unique[OF assms(1,2)] assms(3) by simp
  ultimately show ?thesis by (simp add: float_round_def Let_def)
qed

lemma float_round_nat: "n < 2 ^ 53 \<Longrightarrow> float_round (real n) = real n"
  by (rule float_round_exact[where m="int n" and k=0]) simp_all

lemma float_round_1 [simp]: "float_round 1 = 1"
  by (rule float_round_exact[where m=1 and k=0]) simp_all

lemma float_round_half [simp]: "float_round (1 / 2) = 1 / 2"
  by (rule float_round_exact[where m=1 and k="- 1"]) simp_all





lemma below_infinity: "x \<le> 2 ^ 53 \<Longrightarrow> x < (2::real) powi 1024"
proof -
  assume "x \<le> 2 ^ 53"
  moreover have "(2::real) powi 53 \<le> 2 powi 1023" by (rule powi_mono) simp
  moreover have "(2::real) powi 1023 < 2 powi 1024" by (rule power_int_strict_increasing) simp_all
  ultimately show ?thesis by simp
qed

lemma float_of_int_nat:
  assumes "n < 2 ^ 53"
  shows "float_of_int (int n) = Inr (real n)"
proof -
  have "real n \<le> 2 ^ 53" using assms by (metis less_imp_le of_nat_le_iff of_nat_numeral of_nat_power)
  then have "\<bar>real n\<bar> < 2 powi 1024" using below_infinity[of "real n"] by simp
  then show ?thesis
    using float_round_nat[OF assms] by (simp add: float_of_int_def)
qed

lemma py_int_nonneg: "0 \<le> x \<Longrightarrow> x < 2 powi 1024 \<Longrightarrow> py_int x = Inr \<lfloor>x\<rfloor>"
  by (simp add: py_int_def)



text \<open>With 100 samples and the float nearest to 0.6 as confidence level, the ranks are 20
  and 80: the float product for the upper rank rounds up to 80, where the product of the
  exact numbers lies below 80.\<close>

lemma ranks_of_six_tenths:
  "lower_rank 100 (5404319552844595 / 2 ^ 53) = Inr 20"
  "upper_rank 100 (5404319552844595 / 2 ^ 53) = Inr 80"
proof -
  let ?ci = "5404319552844595 / 2 ^ 53 :: real"
  have t: "float_round (1 - ?ci) = 3602879701896397 / 2 ^ 53"
  proof -
    have "float_round (3602879701896397 / 2 ^ 53) = 3602879701896397 / 2 ^ 53"
      by (rule float_round_exact[where m=3602879701896397 and k="- 53"]) simp_all
    moreover have "1 - ?ci = 3602879701896397 / 2 ^ 53" by simp
    ultimately show ?thesis by simp
  qed
  have s: "float_round (3602879701896397 / 2 ^ 53 / 2) = 3602879701896397 / 2 ^ 54"
  proof -
    have "float_round (3602879701896397 / 2 ^ 54) = 3602879701896397 / 2 ^ 54"
      by (rule float_round_exact[where m=3602879701896397 and k="- 54"]) simp_all
    then show ?thesis by simp
  qed
  have a: "float_round (100 * (3602879701896397 / 2 ^ 54)) = 20"
    by (subst float_round_eval[where e=4]) (simp_all add: round_half_even_def Let_def)
  have u: "float_round (1 - 3602879701896397 / 2 ^ 54) = 7205759403792794 / 2 ^ 53"
    by (subst float_round_eval[where e="- 1"]) (simp_all add: round_half_even_def Let_def)
  have b: "float_round (100 * (7205759403792794 / 2 ^ 53)) = 80"
    by (subst float_round_eval[where e=6]) (simp_all add: round_half_even_def Let_def)
  have n: "float_of_int 100 = Inr 100"
    using float_of_int_nat[of 100] by simp
  have p20: "py_int 20 = Inr 20" using py_int_nonneg[of 20] below_infinity[of 20] by simp
  have p80: "py_int 80 = Inr 80" using py_int_nonneg[of 80] below_infinity[of 80] by simp
  show "lower_rank 100 ?ci = Inr 20"
    by (simp only: lower_rank_def int_mul_float_def float_mul_def float_div_def float_sub_def
        of_nat_numeral n bindE_Inr t s a p20)
  show "upper_rank 100 ?ci = Inr 80"
    by (simp only: upper_rank_def int_mul_float_def float_mul_def float_div_def float_sub_def
        of_nat_numeral n bindE_Inr t s u b p80)
qed







lemma fitted_method:
  assumes "fit svi st0 data = (st, Inr ())"
  shows "method_' (obj st) \<in> set [''MAP'', ''MLE'']"
proof -
  from fit_success[OF assms] obtain y f X m g where
    "method_' (obj st0) \<in> set [''MLE'', ''MAP'']"
    "obj st = (obj st0)\<lparr>history := Some data, X_names := Some (columns f),
                            model := Some m, guide := Some g\<rparr>"
    by blast
  then show ?thesis by auto
qed






subsection \<open>The target column in \<^verbatim>\<open>predict\<close>\<close>

lemma set_columns_setitem: "set (columns (setitem f name c)) = insert name (set (columns f))"
  by (induction f) (auto simp: columns_def)

lemma set_weekday_columns:
  "set_weekday tc f = Inr g \<Longrightarrow> set (columns g) = insert ''weekday'' (set (columns f))"
  by (auto simp: set_weekday_def bindE_eq_Inr set_columns_setitem)

lemma set_day_index_columns:
  "set_day_index tc helper fld f = Inr g \<Longrightarrow> set (columns g) = insert helper (set (columns f))"
  by (auto simp: set_day_index_def bindE_eq_Inr set_columns_setitem)

lemma set_time_in_days_columns:
  "set_time_in_days tc f = Inr g \<Longrightarrow> set (columns g) = insert tc (set (columns f))"
  by (auto simp: set_time_in_days_def bindE_eq_Inr set_columns_setitem)

lemma seasonality_step_columns:
  "seasonality_step tag helper period i f = Inr g \<Longrightarrow>
   set (columns g) = {tag @ ''_sin_'' @ str_int i, tag @ ''_cos_'' @ str_int i} \<union> set (columns f)"
  by (auto simp: seasonality_step_def bindE_eq_Inr set_columns_setitem)

lemma run_seasonality_columns:
  "run (map (seasonality_step tag helper period) xs) f = Inr g \<Longrightarrow>
   set (columns g) \<subseteq> set (columns f)
      \<union> set (concat (map (\<lambda>i. [tag @ ''_sin_'' @ str_int i, tag @ ''_cos_'' @ str_int i]) xs))"
proof (induction xs arbitrary: f)
  case Nil
  then show ?case by simp
next
  case (Cons x xs)
  from Cons.prems obtain f1 where s: "seasonality_step tag helper period x f = Inr f1"
    and r: "run (map (seasonality_step tag helper period) xs) f1 = Inr g"
    by (auto simp: bindE_eq_Inr)
  from Cons.IH[OF r] seasonality_step_columns[OF s] show ?case by auto
qed

lemma transform_frame_columns:
  assumes "transform_frame self data = Inr out"
  shows "set (columns out) \<subseteq> set (columns data) \<union> set (generated_names self)"
proof -
  let ?tc = "time_col_' self"
  from assms obtain f8 where r: "run (transform_body self) data = Inr f8"
    and d: "drop_df f8 [''weekday'', ''monthday'', ''yearday''] = Inr out"
    by (auto simp: transform_frame_run bindE_eq_Inr)
  from r obtain f1 f2 f3 f4 f5 f6 f7 where
    s1: "set_weekday ?tc data = Inr f1"
    and s2: "set_day_index ?tc ''monthday'' day f1 = Inr f2"
    and s3: "set_day_index ?tc ''yearday'' dayofyear f2 = Inr f3"
    and s4: "set_time_in_days ?tc f3 = Inr f4"
    and s5: "run (map (seasonality_step ''yearly'' ''yearday'' 366) [1..year_seasonality_order_' self]) f4 = Inr f5"
    and s6: "run (map (seasonality_step ''monthly'' ''monthday'' 31) [1..month_seasonality_order_' self]) f5 = Inr f6"
    and s7: "run (map (seasonality_step ''weekly'' ''weekday'' 7) [1..weekly_seasonality_order_' self]) f6 = Inr f7"
    and s8: "insert_df f7 0 ''CONST'' 1 = Inr f8"
    unfolding transform_body_def run_append
    by (auto simp: bindE_eq_Inr)
  have tc_in: "?tc \<in> set (columns data)"
    using s1 by (auto simp: set_weekday_def bindE_eq_Inr getitem_def columns_def
        split: option.splits dest!: map_of_SomeD intro: rev_image_eqI)
  have c4: "set (columns f4) = set (columns data) \<union> {''weekday'', ''monthday'', ''yearday''}"
    using set_weekday_columns[OF s1] set_day_index_columns[OF s2] set_day_index_columns[OF s3]
      set_time_in_days_columns[OF s4] tc_in by auto
  have c7: "set (columns f7) \<subseteq> set (columns data) \<union> {''weekday'', ''monthday'', ''yearday''}
              \<union> set (sincos_names self)"
    using run_seasonality_columns[OF s5] run_seasonality_columns[OF s6]
      run_seasonality_columns[OF s7] c4
    unfolding sincos_names_def harmonic_names_def by auto
  have c8: "columns f8 = ''CONST'' # columns f7"
    using s8 by (auto simp: insert_df_def columns_def split: if_splits)
  have co: "set (columns out) = set (columns f8) - {''weekday'', ''monthday'', ''yearday''}"
    using d by (auto simp: drop_df_def columns_def split: if_splits)
  show ?thesis
    using c7 unfolding co c8 sincos_names_generated by auto
qed







subsection \<open>Exceptions raised before the dispatch on the method\<close>

lemma preprocess_missing_target:
  assumes "transform_frame self data = Inr out"
    and "target_col_' self \<notin> set (columns data)"
    and "target_col_' self \<notin> set (generated_names self)"
  shows "preprocess self data = Inl KeyError"
proof -
  have "target_col_' self \<notin> set (columns out)"
    using transform_frame_columns[OF assms(1)] assms(2,3) by auto
  then have "map_of out (target_col_' self) = None"
    by (simp add: columns_def map_of_eq_None_iff)
  then show ?thesis
    by (simp add: preprocess_def assms(1) getitem_def)
qed

lemma no_target_preprocess: "preprocess (obj mcmc_state) no_target_series = Inl KeyError"
proof -
  have g: "generated_names (obj mcmc_state) = generated_names example_model"
    by (simp add: generated_names_def mcmc_state_def example_model_def init_def)
  have v: "valid_series (obj mcmc_state) no_target_series"
    unfolding valid_series_def g example_names
    by (simp add: no_target_series_def mcmc_state_def init_def helper_names_def columns_def)
  have t: "target_col_' (obj mcmc_state) \<notin> set (columns no_target_series)"
    by (simp add: no_target_series_def mcmc_state_def init_def columns_def)
  have n: "target_col_' (obj mcmc_state) \<notin> set (generated_names (obj mcmc_state))"
    unfolding g example_names by (simp add: mcmc_state_def init_def)
  show ?thesis
    by (rule preprocess_missing_target[OF transform_frame_valid_series[OF v] t n])
qed

theorem fit_key_error_counterexample:
  "method_' (obj mcmc_state) \<notin> set [''MLE'', ''MAP'']
   \<and> snd (fit zero_trainer mcmc_state no_target_series) = Inl KeyError"
proof -
  have "method_' (obj mcmc_state) \<notin> set [''MLE'', ''MAP'']"
    by (simp add: mcmc_state_def init_def)
  moreover have "snd (fit zero_trainer mcmc_state no_target_series) = Inl KeyError"
    unfolding fit_preprocess no_target_preprocess by simp
  ultimately show ?thesis by simp
qed

theorem predict_key_error_counterexample:
  "method_' (obj mcmc_state) \<notin> set [''MLE'', ''MAP'']
   \<and> predict zero_sampler mcmc_state no_target_series 100 (95 / 100) = Inl KeyError"
proof -
  have "method_' (obj mcmc_state) \<notin> set [''MLE'', ''MAP'']"
    by (simp add: mcmc_state_def init_def)
  moreover have "predict zero_sampler mcmc_state no_target_series 100 (95 / 100) = Inl KeyError"
    unfolding predict_preprocess no_target_preprocess by simp
  ultimately show ?thesis by simp
qed

subsection \<open>The seasonality curves\<close>

lemma collect_params_eq:
  "i + length bs \<le> length names \<Longrightarrow>
   collect_params tag names i bs
     = Inr (map fst (filter (\<lambda>p. sublist tag (snd p)) (zip bs (drop i names))))"
proof (induction bs arbitrary: i)
  case Nil
  then show ?case by simp
next
  case (Cons b bs)
  then have i: "i < length names" by simp
  have d: "drop i names = names ! i # drop (Suc i) names"
    using i by (simp add: Cons_nth_drop_Suc)
  have "collect_params tag names (Suc i) bs
        = Inr (map fst (filter (\<lambda>p. sublist tag (snd p)) (zip bs (drop (Suc i) names))))"
    using Cons.prems by (intro Cons.IH) simp
  then show ?case using i by (simp add: d)
qed

lemma collect_params_tagged:
  "length betas \<le> length names \<Longrightarrow>
   collect_params tag names 0 betas = Inr (tagged_coefficients tag names betas)"
  using collect_params_eq[of 0 betas names tag] by (simp add: tagged_coefficients_def)

lemma reshape2_even:
  "even (length ps) \<Longrightarrow>
   reshape2 ps = Inr (map (\<lambda>i. (ps ! (2 * i), ps ! (2 * i + 1))) [0..<length ps div 2])"
proof (induction ps rule: reshape2.induct)
  case 1
  then show ?case by simp
next
  case (2 a)
  then show ?case by simp
next
  case (3 a b r)
  then have e: "even (length r)" by simp
  have "map (\<lambda>i. ((a # b # r) ! (2 * i), (a # b # r) ! (2 * i + 1))) [0..<Suc (length r div 2)]
        = (a, b) # map (\<lambda>i. (r ! (2 * i), r ! (2 * i + 1))) [0..<length r div 2]"
    by (simp add: upt_conv_Cons map_Suc_upt[symmetric] del: upt_Suc)
  then show ?case using 3 e by simp
qed

lemma reshape2_odd: "odd (length ps) \<Longrightarrow> reshape2 ps = Inl ValueError"
  by (induction ps rule: reshape2.induct) auto

lemma add_cycle_wave:
  "add_cycle period days (k, q) acc = map2 (\<lambda>d v. v + wave period q (k + 1) d) days acc"
  by (simp add: add_cycle_def wave_def Let_def)

lemma map2_map2:
  "map2 g days (map2 h days acc) = map2 (\<lambda>d v. g d (h d v)) days acc"
proof (induction days arbitrary: acc)
  case Nil
  then show ?case by simp
next
  case (Cons d days)
  then show ?case by (cases acc) simp_all
qed

lemma map2_snd: "length acc = length days \<Longrightarrow> map2 (\<lambda>d v. v) days acc = acc"
proof (induction days arbitrary: acc)
  case Nil
  then show ?case by simp
next
  case (Cons d days)
  then show ?case by (cases acc) simp_all
qed

lemma fold_add_cycle:
  "length acc = length days \<Longrightarrow>
   fold (add_cycle period days) (enumerate k qs) acc
   = map2 (\<lambda>d v. v + (\<Sum>j<length qs. wave period (qs ! j) (k + j + 1) d)) days acc"
proof (induction qs arbitrary: k acc)
  case Nil
  then show ?case by (simp add: map2_snd)
next
  case (Cons q qs)
  let ?acc = "add_cycle period days (k, q) acc"
  have l: "length ?acc = length days"
    using Cons.prems by (simp add: add_cycle_wave)
  have "fold (add_cycle period days) (enumerate k (q # qs)) acc
        = fold (add_cycle period days) (enumerate (Suc k) qs) ?acc"
    by simp
  also have "\<dots> = map2 (\<lambda>d v. v + (\<Sum>j<length qs. wave period (qs ! j) (Suc k + j + 1) d)) days ?acc"
    by (rule Cons.IH[OF l])
  also have "\<dots> = map2 (\<lambda>d v. (v + wave period q (k + 1) d)
                               + (\<Sum>j<length qs. wave period (qs ! j) (Suc k + j + 1) d)) days acc"
    unfolding add_cycle_wave by (rule map2_map2)
  also have "\<dots> = map2 (\<lambda>d v. v + (\<Sum>j<length (q # qs). wave period ((q # qs) ! j) (k + j + 1) d))
                      days acc"
  proof -
    have "(\<lambda>d v. (v + wave period q (k + 1) d)
                  + (\<Sum>j<length qs. wave period (qs ! j) (Suc k + j + 1) d))
          = (\<lambda>d v. v + (\<Sum>j<length (q # qs). wave period ((q # qs) ! j) (k + j + 1) d))"
      by (intro ext) (simp add: sum.lessThan_Suc_shift add.assoc del: sum.lessThan_Suc)
    then show ?thesis by (rule arg_cong)
  qed
  finally show ?case .
qed

lemma fold_add_cycle_zero:
  "fold (add_cycle period days) (enumerate 0 qs) (map (\<lambda>d. 0) days)
   = map (\<lambda>d. \<Sum>j<length qs. wave period (qs ! j) (j + 1) d) days"
proof -
  have "map2 f days (map (\<lambda>d. 0) days) = map (\<lambda>d. f d 0) days" for f :: "nat \<Rightarrow> real \<Rightarrow> real"
    by (induction days) simp_all
  then show ?thesis
    using fold_add_cycle[of "map (\<lambda>d. 0) days" days period 0 qs] by simp
qed

lemma seasonality_point_result:
  assumes n: "X_names (obj st) = Some names"
    and b: "params st param_name = Some betas"
    and l: "length betas \<le> length names"
  shows "seasonality_point tag n_days period label first_day st param_name
         = (if even (length (tagged_coefficients tag names betas))
            then Inr (seasonality_table label first_day n_days period
                        (tagged_coefficients tag names betas))
            else Inl ValueError)"
proof (cases "even (length (tagged_coefficients tag names betas))")
  case False
  then show ?thesis
    by (simp add: seasonality_point_def n b getattr_opt_def collect_params_tagged[OF l] reshape2_odd)
next
  case True
  let ?ps = "tagged_coefficients tag names betas"
  let ?qs = "map (\<lambda>i. (?ps ! (2 * i), ?ps ! (2 * i + 1))) [0..<length ?ps div 2]"
  have w: "(\<Sum>j<length ?qs. wave period (?qs ! j) (j + 1) d) = decomposed_value ?ps period d" for d
    by (simp add: decomposed_value_def wave_def)
  have f: "fold (add_cycle period [0..<n_days]) (enumerate 0 ?qs) (map (\<lambda>d. 0) [0..<n_days])
           = map (\<lambda>d. decomposed_value ?ps period d) [0..<n_days]"
    by (simp only: fold_add_cycle_zero w)
  have "seasonality_point tag n_days period label first_day st param_name
        = Inr [(label, FloatCol (map (\<lambda>d. Some (real (d + first_day))) [0..<n_days])),
               (''Value'', FloatCol (map Some (map (\<lambda>d. decomposed_value ?ps period d) [0..<n_days])))]"
    by (simp only: seasonality_point_def n b option.case getattr_opt_def bindE_Inr
        collect_params_tagged[OF l] reshape2_even[OF True] Let_def f)
  then show ?thesis
    using True by (simp add: seasonality_table_def comp_def)
qed

lemma fitted_coefficients:
  assumes "fit svi st0 data = (st, Inr ())"
  shows "\<exists>y f X betas. preprocess (obj st0) data = Inr (y, f, X)
           \<and> X_names (obj st) = Some (columns f)
           \<and> params st (betas_name (obj st)) = Some betas
           \<and> length betas = length (columns f)
           \<and> method_' (obj st) = method_' (obj st0)"
proof -
  from fit_success[OF assms] obtain y f X m g p where
    pre: "preprocess (obj st0) data = Inr (y, f, X)"
    and meth: "method_' (obj st0) \<in> set [''MLE'', ''MAP'']"
    and m: "m = (if method_' (obj st0) = ''MLE'' then model_MLE_' else model_MAP_')"
    and o: "obj st = (obj st0)\<lparr>history := Some data, X_names := Some (columns f),
                                model := Some m, guide := Some g\<rparr>"
    and ps: "params st = store_params m p (length X)"
    by blast
  have bn: "betas_name (obj st) = betas_name (obj st0)"
    by (simp add: o betas_name_def)
  have b: "params st (betas_name (obj st)) = Some (map (coef p) [0..<length X])"
    unfolding ps bn by (rule store_params_betas[OF m meth])
  from pre obtain internal where "values_tensor f = Inr X"
    by (auto simp: preprocess_def bindE_eq_Inr)
  then have "length X = length (columns f)"
    using values_tensor_length by (simp add: columns_def)
  then show ?thesis
    using pre o b by auto
qed

lemma getter_names:
  "method_' (obj st) \<in> set [''MLE'', ''MAP''] \<Longrightarrow>
   get_weekly_seasonality st = get_weekly_seasonality_point st (betas_name (obj st))
   \<and> get_monthly_seasonality st = get_monthly_seasonality_point st (betas_name (obj st))
   \<and> get_yearly_seasonality st = get_yearly_seasonality_point st (betas_name (obj st))"
  by (auto simp: get_weekly_seasonality_def get_monthly_seasonality_def
      get_yearly_seasonality_def betas_name_def)

lemma weekly_getter_fitted:
  assumes "fit svi st0 data = (st, Inr ())" and n: "X_names (obj st) = Some names"
  shows "\<exists>betas. length betas = length names
         \<and> get_weekly_seasonality st
             = (if even (length (tagged_coefficients ''weekly'' names betas))
                then Inr (seasonality_table ''Weekday'' 0 7 7 (tagged_coefficients ''weekly'' names betas))
                else Inl ValueError)"
proof -
  from fitted_coefficients[OF assms(1)] n obtain betas where
    b: "params st (betas_name (obj st)) = Some betas"
    and l: "length betas = length names"
    by auto
  have le: "length betas \<le> length names" using l by simp
  have m: "method_' (obj st) \<in> set [''MLE'', ''MAP'']"
    using fitted_method[OF assms(1)] by auto
  note g = getter_names[OF m]
  note r = seasonality_point_result[OF n b le]
  show ?thesis
    using l by (simp only: g get_weekly_seasonality_point_def r) blast
qed

text \<open>
  Claim C7, as amended.  For a model that \<^verbatim>\<open>fit\<close> has fitted, each getter collects the
  stored coefficients whose column name contains its tag, in column order.  When their
  number is even, the getter returns exactly the table of the claim: for the day indices
  \<open>d = 0..6\<close> (weekly, reported as they are, Monday = 0), \<open>0..30\<close> (monthly, reported
  from 1) and \<open>0..365\<close> (yearly, reported from 1) the value
  \<open>\<Sum>i. sin_coef\<^sub>i sin (i 2 \<pi> d / p) + cos_coef\<^sub>i cos (i 2 \<pi> d / p)\<close>, where pair
  \<open>i\<close> of the collected coefficients gives the two factors and \<open>p\<close> is 7, 30 and 366.
  When their number is odd, the getter raises ValueError.
\<close>

theorem seasonality_decomposition:
  assumes "fit svi st0 data = (st, Inr ())"
  shows "\<exists>names betas.
           X_names (obj st) = Some names
         \<and> params st (betas_name (obj st)) = Some betas
         \<and> length betas = length names
         \<and> get_weekly_seasonality st
             = (if even (length (tagged_coefficients ''weekly'' names betas))
                then Inr (seasonality_table ''Weekday'' 0 7 7 (tagged_coefficients ''weekly'' names betas))
                else Inl ValueError)
         \<and> get_monthly_seasonality st
             = (if even (length (tagged_coefficients ''monthly'' names betas))
                then Inr (seasonality_table ''Monthday'' 1 31 30
                            (tagged_coefficients ''monthly'' names betas))
                else Inl ValueError)
         \<and> get_yearly_seasonality st
             = (if even (length (tagged_coefficients ''yearly'' names betas))
                then Inr (seasonality_table ''Yearday'' 1 366 366
                            (tagged_coefficients ''yearly'' names betas))
                else Inl ValueError)"
proof -
  from fitted_coefficients[OF assms] obtain y f X betas where
    n: "X_names (obj st) = Some (columns f)"
    and b: "params st (betas_name (obj st)) = Some betas"
    and l: "length betas = length (columns f)"
    by blast
  have le: "length betas \<le> length (columns f)" using l by simp
  have m: "method_' (obj st) \<in> set [''MLE'', ''MAP'']"
    using fitted_method[OF assms] by auto
  note g = getter_names[OF m]
  note r = seasonality_point_result[OF n b le]
  show ?thesis
    using n b l
    by (simp only: g get_weekly_seasonality_point_def get_monthly_seasonality_point_def
        get_yearly_seasonality_point_def r) blast
qed

lemma length_tagged:
  assumes "length betas = length names"
  shows "length (tagged_coefficients tag names betas) = length (filter (sublist tag) names)"
proof -
  have "map snd (filter (\<lambda>p. sublist tag (snd p)) (zip betas names))
        = filter (sublist tag) (map snd (zip betas names))"
    by (simp add: filter_map comp_def)
  also have "\<dots> = filter (sublist tag) names"
    using assms by simp
  finally have "length (filter (\<lambda>p. sublist tag (snd p)) (zip betas names))
                = length (filter (sublist tag) names)"
    by (metis length_map)
  then show ?thesis by (simp add: tagged_coefficients_def)
qed

lemma example_X_names:
  "X_names (obj fitted_example)
   = Some [''CONST'', ''ds'', ''yearly_sin_1'', ''yearly_cos_1'', ''monthly_sin_1'',
           ''monthly_cos_1'', ''weekly_sin_1'', ''weekly_cos_1'']"
proof -
  from fitted_coefficients[OF fit_example] obtain y f X where
    p: "preprocess (obj initial_state) example_series = Inr (y, f, X)"
    and n: "X_names (obj fitted_example) = Some (columns f)"
    by blast
  from preprocess_example[of "obj initial_state"] obtain f' X' where
    "preprocess (obj initial_state) example_series = Inr ([Some 1, Some 2], f', X')"
    "columns f' = [''CONST'', ''ds'', ''yearly_sin_1'', ''yearly_cos_1'', ''monthly_sin_1'',
                   ''monthly_cos_1'', ''weekly_sin_1'', ''weekly_cos_1'']"
    by (auto simp: initial_state_def example_model_def init_def)
  then show ?thesis using p n by simp
qed

theorem seasonality_decomposition_witness:
  "fit zero_trainer initial_state example_series = (fitted_example, Inr ())
   \<and> (\<exists>ps. length ps = 2
         \<and> get_weekly_seasonality fitted_example = Inr (seasonality_table ''Weekday'' 0 7 7 ps))
   \<and> (\<exists>ps. length ps = 2
         \<and> get_monthly_seasonality fitted_example = Inr (seasonality_table ''Monthday'' 1 31 30 ps))
   \<and> (\<exists>ps. length ps = 2
         \<and> get_yearly_seasonality fitted_example = Inr (seasonality_table ''Yearday'' 1 366 366 ps))"
proof -
  let ?names = "[''CONST'', ''ds'', ''yearly_sin_1'', ''yearly_cos_1'', ''monthly_sin_1'',
                 ''monthly_cos_1'', ''weekly_sin_1'', ''weekly_cos_1'']"
  from seasonality_decomposition[OF fit_example] obtain betas where
    l: "length betas = length ?names"
    and w: "get_weekly_seasonality fitted_example
             = (if even (length (tagged_coefficients ''weekly'' ?names betas))
                then Inr (seasonality_table ''Weekday'' 0 7 7 (tagged_coefficients ''weekly'' ?names betas))
                else Inl ValueError)"
    and m: "get_monthly_seasonality fitted_example
             = (if even (length (tagged_coefficients ''monthly'' ?names betas))
                then Inr (seasonality_table ''Monthday'' 1 31 30
                            (tagged_coefficients ''monthly'' ?names betas))
                else Inl ValueError)"
    and y: "get_yearly_seasonality fitted_example
             = (if even (length (tagged_coefficients ''yearly'' ?names betas))
                then Inr (seasonality_table ''Yearday'' 1 366 366
                            (tagged_coefficients ''yearly'' ?names betas))
                else Inl ValueError)"
    unfolding example_X_names by auto
  have lw: "length (tagged_coefficients ''weekly'' ?names betas) = 2"
    unfolding length_tagged[OF l] by (simp add: sublist_code)
  have lm: "length (tagged_coefficients ''monthly'' ?names betas) = 2"
    unfolding length_tagged[OF l] by (simp add: sublist_code)
  have ly: "length (tagged_coefficients ''yearly'' ?names betas) = 2"
    unfolding length_tagged[OF l] by (simp add: sublist_code)
  show ?thesis
    using fit_example w m y lw lm ly by auto
qed

theorem odd_coefficients_counterexample:
  "snd (fit zero_trainer initial_state promo_series) = Inr ()
   \<and> get_weekly_seasonality (fst (fit zero_trainer initial_state promo_series)) = Inl ValueError"
proof -
  let ?st = "fst (fit zero_trainer initial_state promo_series)"
  let ?names = "[''CONST'', ''ds'', ''weekly_promo'', ''yearly_sin_1'', ''yearly_cos_1'',
                 ''monthly_sin_1'', ''monthly_cos_1'', ''weekly_sin_1'', ''weekly_cos_1'']"
  have g: "generated_names (obj initial_state) = generated_names example_model"
    by (simp add: initial_state_def)
  have v: "valid_series (obj initial_state) promo_series"
    unfolding valid_series_def g example_names
    by (simp add: promo_series_def initial_state_def example_model_def init_def helper_names_def
        columns_def)
  have sc: "sincos_names (obj initial_state)
            = [''yearly_sin_1'', ''yearly_cos_1'', ''monthly_sin_1'', ''monthly_cos_1'',
               ''weekly_sin_1'', ''weekly_cos_1'']"
    using example_names by (simp add: sincos_names_generated initial_state_def)
  from preprocess_valid[OF v, of "[Some 1, Some 2]"]
  obtain f X where p: "preprocess (obj initial_state) promo_series = Inr ([Some 1, Some 2], f, X)"
    and c: "columns f = filter (\<lambda>n. n \<noteq> target_col_' (obj initial_state))
                          (''CONST'' # columns promo_series @ sincos_names (obj initial_state))"
    by (auto simp: promo_series_def initial_state_def example_model_def init_def is_float_def
        columns_def)
  have c': "columns f = ?names"
    unfolding c sc
    by (simp add: promo_series_def initial_state_def example_model_def init_def columns_def)
  have ok: "snd (fit zero_trainer initial_state promo_series) = Inr ()"
    by (rule fit_mle_returns[OF p])
      (simp_all add: initial_state_def example_model_def init_def zero_trainer_def)
  then have fit: "fit zero_trainer initial_state promo_series = (?st, Inr ())"
    by (simp add: prod_eq_iff)
  from fitted_coefficients[OF fit] obtain y' f' X' where
    p': "preprocess (obj initial_state) promo_series = Inr (y', f', X')"
    and n': "X_names (obj ?st) = Some (columns f')"
    by blast
  from p p' have "f' = f" by simp
  then have n: "X_names (obj ?st) = Some ?names" using c' n' by simp
  from weekly_getter_fitted[OF fit n] obtain betas where
    l: "length betas = length ?names"
    and w: "get_weekly_seasonality ?st
             = (if even (length (tagged_coefficients ''weekly'' ?names betas))
                then Inr (seasonality_table ''Weekday'' 0 7 7 (tagged_coefficients ''weekly'' ?names betas))
                else Inl ValueError)"
    by blast
  have "length (tagged_coefficients ''weekly'' ?names betas) = 3"
    unfolding length_tagged[OF l] by (simp add: sublist_code)
  then show ?thesis using ok w by simp
qed

end
